theory Spec2Isabelle
  imports Complex_Main
begin

section \<open>The PAPILA registry: data model\<close>

text \<open>
  A shallow embedding of \<^verbatim>\<open>src/papila_classes.py\<close>. Enumerations are datatypes, classes
  are records, \<^verbatim>\<open>Optional[T]\<close> is \<open>T option\<close>. A Python \<^verbatim>\<open>float\<close> field is a \<open>real\<close>:
  the code only compares such a field with integer constants, which Python does exactly
  on every finite float; the non-finite floats (infinities, NaN) are outside the model.
  A Python \<^verbatim>\<open>int\<close> is an \<open>int\<close>. Methods that assign to \<^verbatim>\<open>self\<close> return the updated object;
  a \<^verbatim>\<open>raise\<close> is a value of type \<open>error\<close>.
\<close>

datatype Gender = MALE | FEMALE

datatype DiagnosisStatus = HEALTHY | GLAUCOMA | SUSPECT

datatype Eye = RIGHT | LEFT

datatype CrystallineStatus = PHAKIC | PSEUDOPHAKIC

datatype error =
  FileNotFoundError | ValueError | TypeError | NotADirectoryError | AttributeError

record RefractiveError =
  sphere :: real
  cylinder :: "real option"
  axis :: "real option"

record EyeData =
  eye_type :: Eye
  diagnosis :: DiagnosisStatus
  refractive_error :: "RefractiveError option"
  crystalline_status :: "CrystallineStatus option"
  pneumatic_iop :: "real option"
  perkins_iop :: "real option"
  pachymetry :: "real option"
  axial_length :: "real option"
  mean_defect :: "real option"
  fundus_image :: "string option"

text \<open>\<^verbatim>\<open>EyeData.__init__\<close>: the nine arguments are stored, \<^verbatim>\<open>fundus_image\<close> starts absent.\<close>

definition EyeData_init ::
  "Eye \<Rightarrow> DiagnosisStatus \<Rightarrow> RefractiveError option \<Rightarrow> CrystallineStatus option \<Rightarrow>
   real option \<Rightarrow> real option \<Rightarrow> real option \<Rightarrow> real option \<Rightarrow> real option \<Rightarrow> EyeData" where
  "EyeData_init et d re cs pn pk pa al md =
     \<lparr>eye_type = et, diagnosis = d, refractive_error = re, crystalline_status = cs,
      pneumatic_iop = pn, perkins_iop = pk, pachymetry = pa, axial_length = al,
      mean_defect = md, fundus_image = None\<rparr>"

text \<open>
  \<^verbatim>\<open>EyeData.add_fundus_image\<close>. The file system is the predicate \<open>path_exists\<close>
  (\<^verbatim>\<open>os.path.exists\<close>). The method either assigns the field or raises; the result pairs
  the object as the call leaves it with the exception raised, if any.
\<close>

definition add_fundus_image ::
  "(string \<Rightarrow> bool) \<Rightarrow> EyeData \<Rightarrow> string \<Rightarrow> EyeData \<times> error option" where
  "add_fundus_image path_exists self image_path =
     (if path_exists image_path
      then (self\<lparr>fundus_image := Some image_path\<rparr>, None)
      else (self, Some FileNotFoundError))"

text \<open>
  \<^verbatim>\<open>EyeData.get_glaucoma_severity\<close>. The chained comparison \<^verbatim>\<open>-6 <= m < -3\<close> is the
  conjunction of its two halves; the labels are the source's (Spanish) strings.
\<close>

definition get_glaucoma_severity :: "EyeData \<Rightarrow> string option" where
  "get_glaucoma_severity self =
     (case mean_defect self of
        None \<Rightarrow> None
      | Some m \<Rightarrow>
          if diagnosis self \<noteq> GLAUCOMA then None
          else if - 6 \<le> m \<and> m < - 3 then Some ''Glaucoma Leve''
          else if - 12 \<le> m \<and> m < - 6 then Some ''Glaucoma Moderado''
          else if m < - 12 then Some ''Glaucoma Severo''
          else Some ''No clasificable'')"

record Patient =
  patient_id :: string
  age :: int
  gender :: Gender
  right_eye :: "EyeData option"
  left_eye :: "EyeData option"

text \<open>\<^verbatim>\<open>Patient.__init__\<close> stores its five arguments as they are given.\<close>

definition Patient_init ::
  "string \<Rightarrow> int \<Rightarrow> Gender \<Rightarrow> EyeData option \<Rightarrow> EyeData option \<Rightarrow> Patient" where
  "Patient_init pid a g r l =
     \<lparr>patient_id = pid, age = a, gender = g, right_eye = r, left_eye = l\<rparr>"

text \<open>
  \<^verbatim>\<open>Patient.set_eye_data\<close>: the slot is chosen by the eye data's own \<^verbatim>\<open>eye_type\<close>; the
  final \<^verbatim>\<open>else\<close> raises \<^verbatim>\<open>ValueError\<close>.
\<close>

definition set_eye_data :: "Patient \<Rightarrow> EyeData \<Rightarrow> error + Patient" where
  "set_eye_data self eye_data =
     (if eye_type eye_data = RIGHT then Inr (self\<lparr>right_eye := Some eye_data\<rparr>)
      else if eye_type eye_data = LEFT then Inr (self\<lparr>left_eye := Some eye_data\<rparr>)
      else Inl ValueError)"

text \<open>
  \<^verbatim>\<open>x and x.diagnosis == d\<close> for an optional eye \<open>x\<close>: an \<^verbatim>\<open>EyeData\<close> object is truthy,
  \<^verbatim>\<open>None\<close> is falsy, so the conjunction is true exactly for a recorded eye with
  diagnosis \<open>d\<close>.
\<close>

definition eye_has :: "EyeData option \<Rightarrow> DiagnosisStatus \<Rightarrow> bool" where
  "eye_has x d = (case x of None \<Rightarrow> False | Some e \<Rightarrow> diagnosis e = d)"

text \<open>\<^verbatim>\<open>Patient.get_patient_diagnosis\<close>.\<close>

definition get_patient_diagnosis :: "Patient \<Rightarrow> string" where
  "get_patient_diagnosis self =
     (if right_eye self = None \<and> left_eye self = None then ''Sin datos''
      else if eye_has (right_eye self) GLAUCOMA \<or> eye_has (left_eye self) GLAUCOMA
        then ''Glaucoma''
      else if eye_has (right_eye self) SUSPECT \<or> eye_has (left_eye self) SUSPECT
        then ''Sospechoso''
      else ''Sano'')"


section \<open>The dataset\<close>

text \<open>
  \<^verbatim>\<open>PapilaDataset.patients\<close> is a Python \<^verbatim>\<open>dict\<close>, which iterates in insertion order:
  the list of its items, one pair per key. \<^verbatim>\<open>d[k] = v\<close> replaces the value of a key
  that is present, where it stands, and appends a new key.
\<close>

record PapilaDataset =
  patients :: "(string \<times> Patient) list"
  base_dir :: "string option"

definition PapilaDataset_init :: PapilaDataset where
  "PapilaDataset_init = \<lparr>patients = [], base_dir = None\<rparr>"

fun dict_set :: "'k \<Rightarrow> 'v \<Rightarrow> ('k \<times> 'v) list \<Rightarrow> ('k \<times> 'v) list" where
  "dict_set k v [] = [(k, v)]"
| "dict_set k v ((k', v') # d) = (if k' = k then (k, v) # d else (k', v') # dict_set k v d)"

definition dict_values :: "('k \<times> 'v) list \<Rightarrow> 'v list" where
  "dict_values d = map snd d"

definition set_base_directory ::
  "(string \<Rightarrow> bool) \<Rightarrow> PapilaDataset \<Rightarrow> string \<Rightarrow> PapilaDataset \<times> error option" where
  "set_base_directory is_dir self directory =
     (if is_dir directory then (self\<lparr>base_dir := Some directory\<rparr>, None)
      else (self, Some NotADirectoryError))"

definition add_patient :: "PapilaDataset \<Rightarrow> Patient \<Rightarrow> PapilaDataset" where
  "add_patient self patient =
     self\<lparr>patients := dict_set (patient_id patient) patient (patients self)\<rparr>"

definition get_patient :: "PapilaDataset \<Rightarrow> string \<Rightarrow> Patient option" where
  "get_patient self pid = map_of (patients self) pid"

definition remove_patient :: "PapilaDataset \<Rightarrow> string \<Rightarrow> PapilaDataset \<times> bool" where
  "remove_patient self pid =
     (if pid \<in> fst ` set (patients self)
      then (self\<lparr>patients := filter (\<lambda>kv. fst kv \<noteq> pid) (patients self)\<rparr>, True)
      else (self, False))"

subsection \<open>Filtering\<close>

text \<open>
  The values of \<^verbatim>\<open>**kwargs\<close> are untyped. \<open>pyval\<close> holds the Python values the four
  recognised keys can meet: integers (the booleans among them), finite floats,
  members of the two enumerations, and strings and \<^verbatim>\<open>None\<close> for everything else.
\<close>

datatype pyval =
  PyInt int | PyFloat real | PyGender Gender | PyDiag DiagnosisStatus | PyStr string | PyNone

text \<open>
  \<^verbatim>\<open>p.age >= value\<close> and \<^verbatim>\<open>p.age <= value\<close>: an \<^verbatim>\<open>int\<close> is ordered against an \<^verbatim>\<open>int\<close>
  or a \<^verbatim>\<open>float\<close>, exactly; against anything else the comparison raises \<^verbatim>\<open>TypeError\<close>.
\<close>

fun py_ge :: "int \<Rightarrow> pyval \<Rightarrow> error + bool" where
  "py_ge a (PyInt n) = Inr (a \<ge> n)"
| "py_ge a (PyFloat x) = Inr (real_of_int a \<ge> x)"
| "py_ge a _ = Inl TypeError"

fun py_le :: "int \<Rightarrow> pyval \<Rightarrow> error + bool" where
  "py_le a (PyInt n) = Inr (a \<le> n)"
| "py_le a (PyFloat x) = Inr (real_of_int a \<le> x)"
| "py_le a _ = Inl TypeError"

text \<open>
  \<^verbatim>\<open>x and x.diagnosis == value\<close> for an optional eye \<open>x\<close> and an untyped \<^verbatim>\<open>value\<close>: a
  member of an enumeration equals only itself.
\<close>

definition eye_matches :: "EyeData option \<Rightarrow> pyval \<Rightarrow> bool" where
  "eye_matches x v = (case x of None \<Rightarrow> False | Some e \<Rightarrow> PyDiag (diagnosis e) = v)"

text \<open>
  A list comprehension \<^verbatim>\<open>[p for p in ps if cond(p)]\<close> whose condition may raise: the
  first exception ends it.
\<close>

fun comprehension :: "('a \<Rightarrow> error + bool) \<Rightarrow> 'a list \<Rightarrow> error + 'a list" where
  "comprehension cond [] = Inr []"
| "comprehension cond (p # ps) =
     (case cond p of
        Inl e \<Rightarrow> Inl e
      | Inr b \<Rightarrow>
          (case comprehension cond ps of
             Inl e \<Rightarrow> Inl e
           | Inr r \<Rightarrow> Inr (if b then p # r else r)))"

text \<open>The loop over \<^verbatim>\<open>kwargs.items()\<close>, in the order of the call.\<close>

fun filter_loop :: "(string \<times> pyval) list \<Rightarrow> Patient list \<Rightarrow> error + Patient list" where
  "filter_loop [] filtered_patients = Inr filtered_patients"
| "filter_loop ((key, v) # kwargs) filtered_patients =
     (if key = ''age_min'' then
        (case comprehension (\<lambda>p. py_ge (age p) v) filtered_patients of
           Inl e \<Rightarrow> Inl e | Inr fp \<Rightarrow> filter_loop kwargs fp)
      else if key = ''age_max'' then
        (case comprehension (\<lambda>p. py_le (age p) v) filtered_patients of
           Inl e \<Rightarrow> Inl e | Inr fp \<Rightarrow> filter_loop kwargs fp)
      else if key = ''gender'' then
        (case comprehension (\<lambda>p. Inr (PyGender (gender p) = v)) filtered_patients of
           Inl e \<Rightarrow> Inl e | Inr fp \<Rightarrow> filter_loop kwargs fp)
      else if key = ''diagnosis'' then
        (case comprehension
                (\<lambda>p. Inr (eye_matches (right_eye p) v \<or> eye_matches (left_eye p) v))
                filtered_patients of
           Inl e \<Rightarrow> Inl e | Inr fp \<Rightarrow> filter_loop kwargs fp)
      else filter_loop kwargs filtered_patients)"

definition filter_patients ::
  "PapilaDataset \<Rightarrow> (string \<times> pyval) list \<Rightarrow> error + Patient list" where
  "filter_patients self kwargs = filter_loop kwargs (dict_values (patients self))"

subsection \<open>Statistics\<close>

text \<open>
  The age minimum and maximum start as \<^verbatim>\<open>float('inf')\<close> and \<^verbatim>\<open>float('-inf')\<close> and
  are then integers: \<open>pynum\<close> holds the three. \<^verbatim>\<open>min(a, b)\<close> is \<open>b\<close> when \<open>b < a\<close> and
  \<open>a\<close> otherwise; \<^verbatim>\<open>max(a, b)\<close> is \<open>b\<close> when \<open>b > a\<close> and \<open>a\<close> otherwise.
\<close>

datatype pynum = NegInf | IntVal int | PosInf

fun py_lt :: "pynum \<Rightarrow> pynum \<Rightarrow> bool" where
  "py_lt (IntVal a) (IntVal b) = (a < b)"
| "py_lt NegInf NegInf = False"
| "py_lt NegInf _ = True"
| "py_lt _ NegInf = False"
| "py_lt PosInf _ = False"
| "py_lt (IntVal a) PosInf = True"

definition py_min :: "pynum \<Rightarrow> pynum \<Rightarrow> pynum" where
  "py_min a b = (if py_lt b a then b else a)"

definition py_max :: "pynum \<Rightarrow> pynum \<Rightarrow> pynum" where
  "py_max a b = (if py_lt a b then b else a)"

record gender_counts =
  male :: nat
  female :: nat

record diagnosis_counts =
  healthy :: nat
  glaucoma :: nat
  suspect :: nat
  mixed :: nat

text \<open>
  The keys \<^verbatim>\<open>"min"\<close>, \<^verbatim>\<open>"max"\<close>, \<^verbatim>\<open>"avg"\<close> of \<^verbatim>\<open>age_stats\<close>. The average is the exact
  quotient; Python's \<^verbatim>\<open>/\<close> rounds it to the nearest float.
\<close>

record age_summary =
  min_age :: pynum
  max_age :: pynum
  avg :: real

record statistics =
  total_patients :: nat
  gender_distribution :: gender_counts
  diagnosis_distribution :: diagnosis_counts
  age_stats :: age_summary

text \<open>\<^verbatim>\<open>patient.right_eye.diagnosis if patient.right_eye else None\<close>.\<close>

definition diagnosis_of :: "EyeData option \<Rightarrow> DiagnosisStatus option" where
  "diagnosis_of x = (case x of None \<Rightarrow> None | Some e \<Rightarrow> Some (diagnosis e))"

text \<open>The diagnosis part of the loop body (lines 194 to 205).\<close>

definition count_diagnosis :: "Patient \<Rightarrow> diagnosis_counts \<Rightarrow> diagnosis_counts" where
  "count_diagnosis patient dd =
     (let right_diagnosis = diagnosis_of (right_eye patient);
          left_diagnosis = diagnosis_of (left_eye patient)
      in if right_diagnosis = left_diagnosis then
           (if right_diagnosis = Some HEALTHY then dd\<lparr>healthy := healthy dd + 1\<rparr>
            else if right_diagnosis = Some GLAUCOMA then dd\<lparr>glaucoma := glaucoma dd + 1\<rparr>
            else if right_diagnosis = Some SUSPECT then dd\<lparr>suspect := suspect dd + 1\<rparr>
            else dd)
         else dd\<lparr>mixed := mixed dd + 1\<rparr>)"

text \<open>The body of the loop over the patients, but for the sum of the ages.\<close>

definition update_stats :: "Patient \<Rightarrow> statistics \<Rightarrow> statistics" where
  "update_stats patient stats =
     stats\<lparr>age_stats := (age_stats stats)
              \<lparr>min_age := py_min (min_age (age_stats stats)) (IntVal (age patient)),
               max_age := py_max (max_age (age_stats stats)) (IntVal (age patient))\<rparr>,
           diagnosis_distribution :=
              count_diagnosis patient (diagnosis_distribution stats)\<rparr>"

text \<open>The loop over the patients; the state is \<^verbatim>\<open>stats\<close> and \<^verbatim>\<open>total_age\<close>.\<close>

fun stats_loop :: "Patient list \<Rightarrow> statistics \<times> int \<Rightarrow> statistics \<times> int" where
  "stats_loop [] st = st"
| "stats_loop (patient # rest) (stats, total_age) =
     stats_loop rest (update_stats patient stats, total_age + age patient)"

definition initial_stats :: "PapilaDataset \<Rightarrow> statistics" where
  "initial_stats self =
     \<lparr>total_patients = length (patients self),
      gender_distribution =
        \<lparr>male = length (filter (\<lambda>p. gender p = MALE) (dict_values (patients self))),
         female = length (filter (\<lambda>p. gender p = FEMALE) (dict_values (patients self)))\<rparr>,
      diagnosis_distribution = \<lparr>healthy = 0, glaucoma = 0, suspect = 0, mixed = 0\<rparr>,
      age_stats = \<lparr>min_age = PosInf, max_age = NegInf, avg = 0\<rparr>\<rparr>"

definition get_statistics :: "PapilaDataset \<Rightarrow> statistics" where
  "get_statistics self =
     (case stats_loop (dict_values (patients self)) (initial_stats self, 0) of
        (stats, total_age) \<Rightarrow>
          if patients self \<noteq> []
          then stats\<lparr>age_stats := (age_stats stats)
                 \<lparr>avg := real_of_int total_age / real (length (patients self))\<rparr>\<rparr>
          else stats)"

section \<open>Objects and references\<close>

text \<open>
  Python objects are references: the dictionary of a dataset holds the addresses of
  its patients, a patient the addresses of its eye data, and a list the addresses of
  its elements. To speak of what a call leaves unchanged and of what its result
  shares with the dataset, this section gives \<^verbatim>\<open>filter_patients\<close> and
  \<^verbatim>\<open>get_statistics\<close> a second time, on a store: a heap is the list of its objects,
  an address is an index into it, and a new object is appended. The conditions of the
  filter and the statistics themselves are those defined above.
\<close>

type_synonym addr = nat

record PatientObj =
  obj_patient_id :: string
  obj_age :: int
  obj_gender :: Gender
  obj_right_eye :: "addr option"
  obj_left_eye :: "addr option"

datatype cell =
    EyeCell EyeData
  | PatientCell PatientObj
  | DictCell "(string \<times> addr) list"
  | ListCell "addr list"
  | DatasetCell addr "string option"
  | StatsCell statistics

type_synonym heap = "cell list"

definition lookup :: "heap \<Rightarrow> addr \<Rightarrow> cell option" where
  "lookup h a = (if a < length h then Some (h ! a) else None)"

definition alloc :: "heap \<Rightarrow> cell \<Rightarrow> heap \<times> addr" where
  "alloc h c = (h @ [c], length h)"

text \<open>
  Reading an object with the objects it refers to. A read that finds no object of
  the expected class is \<open>None\<close>: the Python attribute access raises
  \<^verbatim>\<open>AttributeError\<close>.
\<close>

definition load_eye :: "heap \<Rightarrow> addr option \<Rightarrow> EyeData option option" where
  "load_eye h x =
     (case x of
        None \<Rightarrow> Some None
      | Some a \<Rightarrow> (case lookup h a of Some (EyeCell e) \<Rightarrow> Some (Some e) | _ \<Rightarrow> None))"

definition load_patient :: "heap \<Rightarrow> addr \<Rightarrow> Patient option" where
  "load_patient h a =
     (case lookup h a of
        Some (PatientCell po) \<Rightarrow>
          (case load_eye h (obj_right_eye po) of
             None \<Rightarrow> None
           | Some r \<Rightarrow>
               (case load_eye h (obj_left_eye po) of
                  None \<Rightarrow> None
                | Some l \<Rightarrow>
                    Some \<lparr>patient_id = obj_patient_id po, age = obj_age po,
                          gender = obj_gender po, right_eye = r, left_eye = l\<rparr>))
      | _ \<Rightarrow> None)"

fun load_items :: "heap \<Rightarrow> (string \<times> addr) list \<Rightarrow> (string \<times> Patient) list option" where
  "load_items h [] = Some []"
| "load_items h ((k, a) # items) =
     (case load_patient h a of
        None \<Rightarrow> None
      | Some p \<Rightarrow> (case load_items h items of None \<Rightarrow> None | Some d \<Rightarrow> Some ((k, p) # d)))"

definition load_dataset :: "heap \<Rightarrow> addr \<Rightarrow> PapilaDataset option" where
  "load_dataset h self =
     (case lookup h self of
        Some (DatasetCell d b) \<Rightarrow>
          (case lookup h d of
             Some (DictCell items) \<Rightarrow>
               (case load_items h items of
                  None \<Rightarrow> None
                | Some ps \<Rightarrow> Some \<lparr>patients = ps, base_dir = b\<rparr>)
           | _ \<Rightarrow> None)
      | _ \<Rightarrow> None)"

text \<open>
  A list comprehension over a list of addresses: the condition is evaluated on the
  patient at each address, and the address is kept when it holds.
\<close>

fun comprehension_h ::
  "heap \<Rightarrow> (Patient \<Rightarrow> error + bool) \<Rightarrow> addr list \<Rightarrow> error + addr list" where
  "comprehension_h h cond [] = Inr []"
| "comprehension_h h cond (a # as) =
     (case load_patient h a of
        None \<Rightarrow> Inl AttributeError
      | Some p \<Rightarrow>
          (case cond p of
             Inl e \<Rightarrow> Inl e
           | Inr b \<Rightarrow>
               (case comprehension_h h cond as of
                  Inl e \<Rightarrow> Inl e
                | Inr r \<Rightarrow> Inr (if b then a # r else r))))"

text \<open>
  One comprehension of the loop: it reads the list at \<open>l\<close> and allocates its result,
  which \<^verbatim>\<open>filtered_patients\<close> is then bound to.
\<close>

definition next_list ::
  "heap \<Rightarrow> addr \<Rightarrow> (Patient \<Rightarrow> error + bool) \<Rightarrow> heap \<times> (error + addr)" where
  "next_list h l cond =
     (case lookup h l of
        Some (ListCell as) \<Rightarrow>
          (case comprehension_h h cond as of
             Inl e \<Rightarrow> (h, Inl e)
           | Inr r \<Rightarrow> (case alloc h (ListCell r) of (h', l') \<Rightarrow> (h', Inr l')))
      | _ \<Rightarrow> (h, Inl AttributeError))"

fun filter_loop_h ::
  "(string \<times> pyval) list \<Rightarrow> heap \<Rightarrow> addr \<Rightarrow> heap \<times> (error + addr)" where
  "filter_loop_h [] h l = (h, Inr l)"
| "filter_loop_h ((key, v) # kwargs) h l =
     (if key = ''age_min'' then
        (case next_list h l (\<lambda>p. py_ge (age p) v) of
           (h', Inl e) \<Rightarrow> (h', Inl e) | (h', Inr l') \<Rightarrow> filter_loop_h kwargs h' l')
      else if key = ''age_max'' then
        (case next_list h l (\<lambda>p. py_le (age p) v) of
           (h', Inl e) \<Rightarrow> (h', Inl e) | (h', Inr l') \<Rightarrow> filter_loop_h kwargs h' l')
      else if key = ''gender'' then
        (case next_list h l (\<lambda>p. Inr (PyGender (gender p) = v)) of
           (h', Inl e) \<Rightarrow> (h', Inl e) | (h', Inr l') \<Rightarrow> filter_loop_h kwargs h' l')
      else if key = ''diagnosis'' then
        (case next_list h l
                (\<lambda>p. Inr (eye_matches (right_eye p) v \<or> eye_matches (left_eye p) v)) of
           (h', Inl e) \<Rightarrow> (h', Inl e) | (h', Inr l') \<Rightarrow> filter_loop_h kwargs h' l')
      else filter_loop_h kwargs h l)"

text \<open>
  \<^verbatim>\<open>filter_patients\<close> on the store: \<^verbatim>\<open>list(self.patients.values())\<close> allocates the first
  list. The result is the heap after the call and the address of the list returned,
  or the exception.
\<close>

definition filter_patients_h ::
  "heap \<Rightarrow> addr \<Rightarrow> (string \<times> pyval) list \<Rightarrow> heap \<times> (error + addr)" where
  "filter_patients_h h self kwargs =
     (case lookup h self of
        Some (DatasetCell d b) \<Rightarrow>
          (case lookup h d of
             Some (DictCell items) \<Rightarrow>
               (case alloc h (ListCell (dict_values items)) of
                  (h', l) \<Rightarrow> filter_loop_h kwargs h' l)
           | _ \<Rightarrow> (h, Inl AttributeError))
      | _ \<Rightarrow> (h, Inl AttributeError))"

text \<open>
  \<^verbatim>\<open>get_statistics\<close> on the store. The dictionary \<^verbatim>\<open>stats\<close> and the three dictionaries
  in it are new objects, kept here in one cell; the loop reads each patient and
  assigns to the entries of \<^verbatim>\<open>stats\<close> at its address \<open>s\<close>.
\<close>

fun stats_loop_h :: "addr list \<Rightarrow> heap \<Rightarrow> addr \<Rightarrow> int \<Rightarrow> heap \<times> (error + int)" where
  "stats_loop_h [] h s total_age = (h, Inr total_age)"
| "stats_loop_h (a # as) h s total_age =
     (case load_patient h a of
        None \<Rightarrow> (h, Inl AttributeError)
      | Some patient \<Rightarrow>
          (case lookup h s of
             Some (StatsCell stats) \<Rightarrow>
               stats_loop_h as (h[s := StatsCell (update_stats patient stats)]) s
                 (total_age + age patient)
           | _ \<Rightarrow> (h, Inl AttributeError)))"

definition get_statistics_h :: "heap \<Rightarrow> addr \<Rightarrow> heap \<times> (error + addr)" where
  "get_statistics_h h self =
     (case lookup h self of
        Some (DatasetCell d b) \<Rightarrow>
          (case lookup h d of
             Some (DictCell items) \<Rightarrow>
               (case load_items h items of
                  None \<Rightarrow> (h, Inl AttributeError)
                | Some ps \<Rightarrow>
                    (case alloc h (StatsCell (initial_stats \<lparr>patients = ps, base_dir = b\<rparr>)) of
                       (h1, s) \<Rightarrow>
                         (case stats_loop_h (dict_values items) h1 s 0 of
                            (h2, Inl e) \<Rightarrow> (h2, Inl e)
                          | (h2, Inr total_age) \<Rightarrow>
                              if items \<noteq> [] then
                                (case lookup h2 s of
                                   Some (StatsCell stats) \<Rightarrow>
                                     (h2[s := StatsCell
                                        (stats\<lparr>age_stats := (age_stats stats)
                                           \<lparr>avg := real_of_int total_age
                                                     / real (length items)\<rparr>\<rparr>)],
                                      Inr s)
                                 | _ \<Rightarrow> (h2, Inl AttributeError))
                              else (h2, Inr s))))
           | _ \<Rightarrow> (h, Inl AttributeError))
      | _ \<Rightarrow> (h, Inl AttributeError))"

section \<open>Notions of the specification\<close>

text \<open>
  The definitions of this section follow the words of the specification, not the
  code; the properties below compare the code with them.
\<close>

text \<open>The diagnoses of the recorded eyes of a patient.\<close>

definition recorded_diagnoses :: "Patient \<Rightarrow> DiagnosisStatus set" where
  "recorded_diagnoses p = diagnosis ` (set_option (right_eye p) \<union> set_option (left_eye p))"

text \<open>
  The slot invariant of a patient: a recorded right eye has eye type \<open>RIGHT\<close>, a
  recorded left eye has eye type \<open>LEFT\<close>.
\<close>

definition slot_ok :: "Eye \<Rightarrow> EyeData option \<Rightarrow> bool" where
  "slot_ok side x = (case x of None \<Rightarrow> True | Some e \<Rightarrow> eye_type e = side)"

definition eye_slots_ok :: "Patient \<Rightarrow> bool" where
  "eye_slots_ok p = (slot_ok RIGHT (right_eye p) \<and> slot_ok LEFT (left_eye p))"


text \<open>
  The bucket of the diagnosis distribution a patient counts in: the bucket of the
  common diagnosis when both eyes are recorded with the same diagnosis, the mixed
  bucket when the two sides differ, also when only one eye is recorded, and no bucket
  when no eye is recorded.
\<close>

datatype bucket = HealthyBucket | GlaucomaBucket | SuspectBucket | MixedBucket

definition bucket_of_diagnosis :: "DiagnosisStatus \<Rightarrow> bucket" where
  "bucket_of_diagnosis d =
     (case d of HEALTHY \<Rightarrow> HealthyBucket | GLAUCOMA \<Rightarrow> GlaucomaBucket
      | SUSPECT \<Rightarrow> SuspectBucket)"

definition bucket_of :: "Patient \<Rightarrow> bucket option" where
  "bucket_of p =
     (case right_eye p of
        None \<Rightarrow> (case left_eye p of None \<Rightarrow> None | Some l \<Rightarrow> Some MixedBucket)
      | Some r \<Rightarrow>
          (case left_eye p of
             None \<Rightarrow> Some MixedBucket
           | Some l \<Rightarrow>
               if diagnosis r = diagnosis l then Some (bucket_of_diagnosis (diagnosis r))
               else Some MixedBucket))"

definition increment :: "bucket \<Rightarrow> diagnosis_counts \<Rightarrow> diagnosis_counts" where
  "increment b dd =
     (case b of
        HealthyBucket \<Rightarrow> dd\<lparr>healthy := healthy dd + 1\<rparr>
      | GlaucomaBucket \<Rightarrow> dd\<lparr>glaucoma := glaucoma dd + 1\<rparr>
      | SuspectBucket \<Rightarrow> dd\<lparr>suspect := suspect dd + 1\<rparr>
      | MixedBucket \<Rightarrow> dd\<lparr>mixed := mixed dd + 1\<rparr>)"

definition in_bucket :: "bucket \<Rightarrow> Patient list \<Rightarrow> nat" where
  "in_bucket b ps = length (filter (\<lambda>p. bucket_of p = Some b) ps)"

definition no_eyes :: "Patient \<Rightarrow> bool" where
  "no_eyes p = (right_eye p = None \<and> left_eye p = None)"

text \<open>
  The filter predicates: \<^verbatim>\<open>age_min\<close> is an inclusive lower bound on the age, \<^verbatim>\<open>age_max\<close>
  an inclusive upper bound, \<^verbatim>\<open>gender\<close> an exact match, \<^verbatim>\<open>diagnosis\<close> holds when a
  recorded eye carries the diagnosis; any other key holds of every patient. A bound is
  well typed when it is a number.
\<close>

definition is_number :: "pyval \<Rightarrow> bool" where
  "is_number v = (case v of PyInt n \<Rightarrow> True | PyFloat x \<Rightarrow> True | _ \<Rightarrow> False)"

definition well_typed :: "string \<times> pyval \<Rightarrow> bool" where
  "well_typed kv = (fst kv = ''age_min'' \<or> fst kv = ''age_max'' \<longrightarrow> is_number (snd kv))"

fun at_most :: "pyval \<Rightarrow> int \<Rightarrow> bool" where
  "at_most (PyInt n) a = (n \<le> a)"
| "at_most (PyFloat x) a = (x \<le> real_of_int a)"
| "at_most _ a = False"

fun at_least :: "pyval \<Rightarrow> int \<Rightarrow> bool" where
  "at_least (PyInt n) a = (a \<le> n)"
| "at_least (PyFloat x) a = (real_of_int a \<le> x)"
| "at_least _ a = False"

definition satisfies :: "string \<times> pyval \<Rightarrow> Patient \<Rightarrow> bool" where
  "satisfies kv p =
     (if fst kv = ''age_min'' then at_most (snd kv) (age p)
      else if fst kv = ''age_max'' then at_least (snd kv) (age p)
      else if fst kv = ''gender'' then snd kv = PyGender (gender p)
      else if fst kv = ''diagnosis'' then snd kv \<in> PyDiag ` recorded_diagnoses p
      else True)"

definition recognized :: "string \<Rightarrow> bool" where
  "recognized k = (k = ''age_min'' \<or> k = ''age_max'' \<or> k = ''gender'' \<or> k = ''diagnosis'')"

text \<open>
  A fresh list: an address that is not one of the old heap and holds a list in the
  new heap.
\<close>

definition fresh_list :: "heap \<Rightarrow> heap \<Rightarrow> addr \<Rightarrow> bool" where
  "fresh_list h h' l =
     (length h \<le> l \<and> l < length h' \<and> (case h' ! l of ListCell as \<Rightarrow> True | _ \<Rightarrow> False))"

text \<open>
  The patients at the addresses \<open>as\<close> are \<open>ps\<close>, and the result of a call on the store
  agrees with a result on values: the same exception, or a list of addresses at
  which the patients of the value result are found.
\<close>

definition loads :: "heap \<Rightarrow> addr list \<Rightarrow> Patient list \<Rightarrow> bool" where
  "loads h as ps = list_all2 (\<lambda>a p. load_patient h a = Some p) as ps"

definition agrees :: "heap \<Rightarrow> error + addr \<Rightarrow> error + Patient list \<Rightarrow> bool" where
  "agrees h r v =
     (case v of
        Inl e \<Rightarrow> r = Inl e
      | Inr ps \<Rightarrow>
          (case r of
             Inl e \<Rightarrow> False
           | Inr l \<Rightarrow> (case lookup h l of Some (ListCell as) \<Rightarrow> loads h as ps | _ \<Rightarrow> False)))"

section \<open>The demonstration of the source\<close>

text \<open>
  The objects the \<^verbatim>\<open>__main__\<close> block of the source builds: patient \<^verbatim>\<open>P001\<close>, aged 65,
  male, with a glaucomatous right eye and a suspect left eye, in a dataset of its own.
  \<open>sample_dataset\<close> adds two patients to it, one with two healthy eyes and one with no
  eye recorded.
\<close>

definition demo_right_eye :: EyeData where
  "demo_right_eye =
     EyeData_init RIGHT GLAUCOMA
       (Some \<lparr>sphere = - 3 / 2, cylinder = Some (- 3 / 4), axis = Some 180\<rparr>)
       (Some PHAKIC) (Some 25) (Some 24) (Some 545) (Some (49 / 2)) (Some (- 17 / 2))"

definition demo_left_eye :: EyeData where
  "demo_left_eye =
     EyeData_init LEFT SUSPECT
       (Some \<lparr>sphere = - 5 / 4, cylinder = None, axis = None\<rparr>)
       (Some PHAKIC) (Some 22) (Some 21) (Some 540) (Some (243 / 10)) (Some (- 5 / 2))"

definition demo_patient :: Patient where
  "demo_patient = Patient_init ''P001'' 65 MALE (Some demo_right_eye) (Some demo_left_eye)"

definition demo_dataset :: PapilaDataset where
  "demo_dataset = add_patient PapilaDataset_init demo_patient"

definition sample_dataset :: PapilaDataset where
  "sample_dataset =
     add_patient
       (add_patient demo_dataset
          (Patient_init ''P002'' 40 FEMALE
             (Some (EyeData_init RIGHT HEALTHY None None None None None None None))
             (Some (EyeData_init LEFT HEALTHY None None None None None None None))))
       (Patient_init ''P003'' 70 MALE None None)"

text \<open>The dataset of the demonstration as objects: the dataset object is at address 4.\<close>

definition demo_heap :: heap where
  "demo_heap =
     [EyeCell demo_right_eye, EyeCell demo_left_eye,
      PatientCell \<lparr>obj_patient_id = ''P001'', obj_age = 65, obj_gender = MALE,
                   obj_right_eye = Some 0, obj_left_eye = Some 1\<rparr>,
      DictCell [(''P001'', 2)],
      DatasetCell 3 None]"

section \<open>Glaucoma severity\<close>

text \<open>
  C1. For an eye with diagnosis GLAUCOMA and a recorded mean defect \<open>m\<close>, the severity
  is one of the four labels, and each label is returned exactly on its band: mild
  (\<^verbatim>\<open>Glaucoma Leve\<close>) on \<open>[-6, -3)\<close>, moderate (\<^verbatim>\<open>Glaucoma Moderado\<close>) on \<open>[-12, -6)\<close>,
  severe (\<^verbatim>\<open>Glaucoma Severo\<close>) below \<open>-12\<close>, unclassifiable (\<^verbatim>\<open>No clasificable\<close>) from
  \<open>-3\<close> upwards. As the labels differ and every \<open>m\<close> gets a label, the bands cover the
  reals and do not overlap.
\<close>

theorem get_glaucoma_severity_bands:
  assumes "diagnosis e = GLAUCOMA" and "mean_defect e = Some m"
  shows "(get_glaucoma_severity e = Some ''Glaucoma Leve'') = (- 6 \<le> m \<and> m < - 3)
       \<and> (get_glaucoma_severity e = Some ''Glaucoma Moderado'') = (- 12 \<le> m \<and> m < - 6)
       \<and> (get_glaucoma_severity e = Some ''Glaucoma Severo'') = (m < - 12)
       \<and> (get_glaucoma_severity e = Some ''No clasificable'') = (- 3 \<le> m)
       \<and> (get_glaucoma_severity e = Some ''Glaucoma Leve''
          \<or> get_glaucoma_severity e = Some ''Glaucoma Moderado''
          \<or> get_glaucoma_severity e = Some ''Glaucoma Severo''
          \<or> get_glaucoma_severity e = Some ''No clasificable'')"
  using assms by (simp add: get_glaucoma_severity_def)

theorem get_glaucoma_severity_bands_witness:
  "get_glaucoma_severity
     (EyeData_init RIGHT GLAUCOMA None None None None None None (Some (- 3)))
     = Some ''No clasificable''
   \<and> get_glaucoma_severity
     (EyeData_init RIGHT GLAUCOMA None None None None None None (Some 0))
     = Some ''No clasificable''
   \<and> get_glaucoma_severity
     (EyeData_init RIGHT GLAUCOMA None None None None None None (Some (- 17 / 2)))
     = Some ''Glaucoma Moderado''"
  using get_glaucoma_severity_bands
      [of "EyeData_init RIGHT GLAUCOMA None None None None None None (Some (- 3))" "- 3"]
    get_glaucoma_severity_bands
      [of "EyeData_init RIGHT GLAUCOMA None None None None None None (Some 0)" 0]
    get_glaucoma_severity_bands
      [of "EyeData_init RIGHT GLAUCOMA None None None None None None (Some (- 17 / 2))"
          "- 17 / 2"]
  by (simp add: EyeData_init_def)

text \<open>
  C6. The specification puts a mean defect of exactly \<open>-6\<close> in the moderate band and
  \<open>-6.0000001\<close> on the mild side. The code does the opposite: \<open>-6\<close> is the closed lower end
  of the mild band, and \<open>-6.0000001\<close> is moderate.
\<close>

theorem severity_at_minus_six_counterexample:
  "get_glaucoma_severity
      (EyeData_init RIGHT GLAUCOMA None None None None None None (Some (- 6)))
     = Some ''Glaucoma Leve''
   \<and> get_glaucoma_severity
      (EyeData_init RIGHT GLAUCOMA None None None None None None (Some (- 6)))
     \<noteq> Some ''Glaucoma Moderado''
   \<and> get_glaucoma_severity
      (EyeData_init RIGHT GLAUCOMA None None None None None None
         (Some (- 60000001 / 10000000)))
     = Some ''Glaucoma Moderado''
   \<and> get_glaucoma_severity
      (EyeData_init RIGHT GLAUCOMA None None None None None None
         (Some (- 60000001 / 10000000)))
     \<noteq> Some ''Glaucoma Leve''"
  by (simp add: get_glaucoma_severity_def EyeData_init_def)

text \<open>
  C6, as amended. For an eye with diagnosis GLAUCOMA, a mean defect of exactly \<open>-6\<close> is
  mild (\<^verbatim>\<open>Glaucoma Leve\<close>), and every mean defect in \<open>[-12, -6)\<close>, such as \<open>-6.0000001\<close>, is
  moderate (\<^verbatim>\<open>Glaucoma Moderado\<close>).
\<close>

theorem severity_at_minus_six:
  assumes "diagnosis e = GLAUCOMA"
  shows "(mean_defect e = Some (- 6) \<longrightarrow> get_glaucoma_severity e = Some ''Glaucoma Leve'')
       \<and> (\<forall>m. mean_defect e = Some m \<and> - 12 \<le> m \<and> m < - 6
              \<longrightarrow> get_glaucoma_severity e = Some ''Glaucoma Moderado'')"
  using assms by (simp add: get_glaucoma_severity_def)

theorem severity_at_minus_six_witness:
  "get_glaucoma_severity
      (EyeData_init LEFT GLAUCOMA None None None None None None (Some (- 6)))
     = Some ''Glaucoma Leve''
   \<and> get_glaucoma_severity
      (EyeData_init LEFT GLAUCOMA None None None None None None
         (Some (- 60000001 / 10000000)))
     = Some ''Glaucoma Moderado''"
  using severity_at_minus_six
      [of "EyeData_init LEFT GLAUCOMA None None None None None None (Some (- 6))"]
    severity_at_minus_six
      [of "EyeData_init LEFT GLAUCOMA None None None None None None
             (Some (- 60000001 / 10000000))"]
  by (simp add: EyeData_init_def)

section \<open>Attaching a fundus image\<close>

text \<open>
  C8. \<^verbatim>\<open>add_fundus_image\<close> raises \<^verbatim>\<open>FileNotFoundError\<close> exactly when the path does not
  exist, and then leaves the eye data, its \<^verbatim>\<open>fundus_image\<close> included, as it was; when the
  path exists no exception is raised and the only change is that \<^verbatim>\<open>fundus_image\<close> is the
  given path.
\<close>

theorem add_fundus_image_not_found:
  "(snd (add_fundus_image path_exists e image_path) = Some FileNotFoundError)
      = (\<not> path_exists image_path)
   \<and> (snd (add_fundus_image path_exists e image_path) = None) = path_exists image_path
   \<and> (\<not> path_exists image_path \<longrightarrow> fst (add_fundus_image path_exists e image_path) = e)
   \<and> (path_exists image_path \<longrightarrow>
        fst (add_fundus_image path_exists e image_path) = e\<lparr>fundus_image := Some image_path\<rparr>)"
  by (simp add: add_fundus_image_def)

theorem add_fundus_image_not_found_witness:
  "add_fundus_image (\<lambda>f. f = ''od.jpg'')
      ((EyeData_init RIGHT HEALTHY None None None None None None None)
         \<lparr>fundus_image := Some ''old.jpg''\<rparr>) ''missing.jpg''
     = ((EyeData_init RIGHT HEALTHY None None None None None None None)
         \<lparr>fundus_image := Some ''old.jpg''\<rparr>, Some FileNotFoundError)
   \<and> add_fundus_image (\<lambda>f. f = ''od.jpg'')
      ((EyeData_init RIGHT HEALTHY None None None None None None None)
         \<lparr>fundus_image := Some ''old.jpg''\<rparr>) ''od.jpg''
     = ((EyeData_init RIGHT HEALTHY None None None None None None None)
         \<lparr>fundus_image := Some ''od.jpg''\<rparr>, None)"
  using add_fundus_image_not_found
      [of "\<lambda>f. f = ''od.jpg''"
          "(EyeData_init RIGHT HEALTHY None None None None None None None)
             \<lparr>fundus_image := Some ''old.jpg''\<rparr>" "''missing.jpg''"]
    add_fundus_image_not_found
      [of "\<lambda>f. f = ''od.jpg''"
          "(EyeData_init RIGHT HEALTHY None None None None None None None)
             \<lparr>fundus_image := Some ''old.jpg''\<rparr>" "''od.jpg''"]
  by (simp add: prod_eq_iff)

section \<open>The diagnosis of a patient\<close>

lemma eye_has_iff: "eye_has x d = (d \<in> diagnosis ` set_option x)"
  by (cases x) (auto simp: eye_has_def)

lemma eye_has_None: "eye_has None d = False"
  by (simp add: eye_has_def)

lemma recorded_diagnoses_iff:
  "(d \<in> recorded_diagnoses p) = (eye_has (right_eye p) d \<or> eye_has (left_eye p) d)"
  by (auto simp: recorded_diagnoses_def eye_has_iff)

lemma recorded_diagnoses_empty:
  "(recorded_diagnoses p = {}) = (right_eye p = None \<and> left_eye p = None)"
  by (cases "right_eye p"; cases "left_eye p") (auto simp: recorded_diagnoses_def)

text \<open>
  C4. \<^verbatim>\<open>get_patient_diagnosis\<close> is \<^verbatim>\<open>Sin datos\<close> (no data) exactly when neither eye is
  recorded; \<^verbatim>\<open>Glaucoma\<close> exactly when a recorded eye has diagnosis GLAUCOMA, whatever the
  other eye; \<^verbatim>\<open>Sospechoso\<close> (suspect) exactly when a recorded eye has diagnosis SUSPECT
  and none has GLAUCOMA; \<^verbatim>\<open>Sano\<close> (healthy) exactly when an eye is recorded and every
  recorded eye is HEALTHY.
\<close>

theorem get_patient_diagnosis_precedence:
  "(get_patient_diagnosis p = ''Sin datos'') = (right_eye p = None \<and> left_eye p = None)
   \<and> (get_patient_diagnosis p = ''Glaucoma'') = (GLAUCOMA \<in> recorded_diagnoses p)
   \<and> (get_patient_diagnosis p = ''Sospechoso'')
        = (SUSPECT \<in> recorded_diagnoses p \<and> GLAUCOMA \<notin> recorded_diagnoses p)
   \<and> (get_patient_diagnosis p = ''Sano'') = (recorded_diagnoses p = {HEALTHY})"
proof -
  have h: "(recorded_diagnoses p = {HEALTHY})
      = (recorded_diagnoses p \<noteq> {} \<and> GLAUCOMA \<notin> recorded_diagnoses p
          \<and> SUSPECT \<notin> recorded_diagnoses p)"
  proof
    assume "recorded_diagnoses p = {HEALTHY}"
    then show "recorded_diagnoses p \<noteq> {} \<and> GLAUCOMA \<notin> recorded_diagnoses p
          \<and> SUSPECT \<notin> recorded_diagnoses p" by simp
  next
    assume a: "recorded_diagnoses p \<noteq> {} \<and> GLAUCOMA \<notin> recorded_diagnoses p
          \<and> SUSPECT \<notin> recorded_diagnoses p"
    have "\<And>d. d \<in> recorded_diagnoses p \<Longrightarrow> d = HEALTHY"
    proof -
      fix d assume "d \<in> recorded_diagnoses p"
      with a show "d = HEALTHY" by (cases d) auto
    qed
    with a show "recorded_diagnoses p = {HEALTHY}" by auto
  qed
  show ?thesis
    unfolding h recorded_diagnoses_empty
    by (auto simp: get_patient_diagnosis_def recorded_diagnoses_iff eye_has_None)
qed

theorem get_patient_diagnosis_precedence_witness:
  "get_patient_diagnosis
     (Patient_init ''P001'' 65 MALE
        (Some (EyeData_init RIGHT GLAUCOMA None None None None None None None))
        (Some (EyeData_init LEFT HEALTHY None None None None None None None)))
     = ''Glaucoma''
   \<and> get_patient_diagnosis (Patient_init ''P002'' 40 FEMALE None None) = ''Sin datos''"
  using get_patient_diagnosis_precedence
     [of "Patient_init ''P001'' 65 MALE
        (Some (EyeData_init RIGHT GLAUCOMA None None None None None None None))
        (Some (EyeData_init LEFT HEALTHY None None None None None None None))"]
    get_patient_diagnosis_precedence [of "Patient_init ''P002'' 40 FEMALE None None"]
  by (simp add: recorded_diagnoses_def Patient_init_def EyeData_init_def)

section \<open>The eye slots of a patient\<close>

text \<open>
  C5. The specification says every way a patient gets eye data keeps the slot invariant. The
  constructor stores its eye arguments unchecked: given eye data of type \<open>LEFT\<close> as
  \<^verbatim>\<open>right_eye\<close>, it yields a patient whose right slot holds a left eye.
\<close>

theorem patient_init_slots_counterexample:
  "\<not> eye_slots_ok
       (Patient_init ''P001'' 65 MALE
          (Some (EyeData_init LEFT HEALTHY None None None None None None None)) None)
   \<and> right_eye
       (Patient_init ''P001'' 65 MALE
          (Some (EyeData_init LEFT HEALTHY None None None None None None None)) None)
     = Some (EyeData_init LEFT HEALTHY None None None None None None None)
   \<and> eye_type (EyeData_init LEFT HEALTHY None None None None None None None) = LEFT"
  by (simp add: eye_slots_ok_def slot_ok_def Patient_init_def EyeData_init_def)

text \<open>
  C5, as amended. A patient constructed without eye data, or with eye arguments whose eye
  types are those of their slots, satisfies the slot invariant. \<^verbatim>\<open>set_eye_data\<close> never
  raises, stores the eye data in the slot its own eye type names, leaves the other slot
  as it was, and preserves the invariant.
\<close>

theorem set_eye_data_slots:
  "eye_slots_ok (Patient_init pid a g None None)
   \<and> (slot_ok RIGHT r \<and> slot_ok LEFT l \<longrightarrow> eye_slots_ok (Patient_init pid a g r l))
   \<and> (\<exists>p'. set_eye_data p e = Inr p'
          \<and> (eye_slots_ok p \<longrightarrow> eye_slots_ok p')
          \<and> (eye_type e = RIGHT \<longrightarrow> right_eye p' = Some e \<and> left_eye p' = left_eye p)
          \<and> (eye_type e = LEFT \<longrightarrow> left_eye p' = Some e \<and> right_eye p' = right_eye p))"
  by (cases "eye_type e")
     (simp_all add: eye_slots_ok_def slot_ok_def Patient_init_def set_eye_data_def)

theorem set_eye_data_slots_witness:
  "eye_slots_ok (Patient_init ''P001'' 65 MALE None None)
   \<and> set_eye_data (Patient_init ''P001'' 65 MALE None None)
        (EyeData_init LEFT SUSPECT None None None None None None None)
     = Inr (Patient_init ''P001'' 65 MALE None
         (Some (EyeData_init LEFT SUSPECT None None None None None None None)))
   \<and> eye_slots_ok (Patient_init ''P001'' 65 MALE None
         (Some (EyeData_init LEFT SUSPECT None None None None None None None)))"
  using set_eye_data_slots
     [of "''P001''" 65 MALE None
         "Some (EyeData_init LEFT SUSPECT None None None None None None None)"
         "Patient_init ''P001'' 65 MALE None None"
         "EyeData_init LEFT SUSPECT None None None None None None None"]
  by (simp add: eye_slots_ok_def slot_ok_def Patient_init_def set_eye_data_def
        EyeData_init_def)

section \<open>Statistics\<close>

text \<open>
  C2. On a dataset with no patients, as a new dataset is, \<^verbatim>\<open>get_statistics\<close> returns
  total 0, gender counts 0 and 0,
  the four diagnosis counts 0 and average 0, but the age minimum and maximum are the
  initial \<^verbatim>\<open>float('inf')\<close> and \<^verbatim>\<open>float('-inf')\<close>, not absent: the loop that would replace
  them never runs, and only the average is guarded by \<^verbatim>\<open>if self.patients\<close>.
\<close>

theorem get_statistics_empty:
  "get_statistics (self\<lparr>patients := []\<rparr>) =
     \<lparr>total_patients = 0,
      gender_distribution = \<lparr>male = 0, female = 0\<rparr>,
      diagnosis_distribution = \<lparr>healthy = 0, glaucoma = 0, suspect = 0, mixed = 0\<rparr>,
      age_stats = \<lparr>min_age = PosInf, max_age = NegInf, avg = 0\<rparr>\<rparr>
   \<and> PapilaDataset_init = PapilaDataset_init\<lparr>patients := []\<rparr>"
  by (simp add: get_statistics_def PapilaDataset_init_def initial_stats_def dict_values_def)

subsection \<open>The loop of the statistics\<close>

lemma count_diagnosis_bucket:
  "count_diagnosis p dd = (case bucket_of p of None \<Rightarrow> dd | Some b \<Rightarrow> increment b dd)"
proof (cases "right_eye p")
  case None
  then show ?thesis
    by (cases "left_eye p")
       (simp_all add: count_diagnosis_def bucket_of_def diagnosis_of_def increment_def)
next
  case (Some r)
  show ?thesis
  proof (cases "left_eye p")
    case None
    with Some show ?thesis
      by (simp add: count_diagnosis_def bucket_of_def diagnosis_of_def increment_def)
  next
    case (Some l)
    with \<open>right_eye p = Some r\<close> show ?thesis
      by (cases "diagnosis r"; cases "diagnosis l")
         (simp_all add: count_diagnosis_def bucket_of_def diagnosis_of_def increment_def
            bucket_of_diagnosis_def)
  qed
qed

lemma stats_loop_fold:
  "diagnosis_distribution (fst (stats_loop ps (s, t)))
     = fold count_diagnosis ps (diagnosis_distribution s)
   \<and> total_patients (fst (stats_loop ps (s, t))) = total_patients s
   \<and> gender_distribution (fst (stats_loop ps (s, t))) = gender_distribution s"
  by (induction ps arbitrary: s t) (simp_all add: update_stats_def)

lemma get_statistics_fields:
  "diagnosis_distribution (get_statistics ds)
     = diagnosis_distribution (fst (stats_loop (dict_values (patients ds)) (initial_stats ds, 0)))
   \<and> total_patients (get_statistics ds)
     = total_patients (fst (stats_loop (dict_values (patients ds)) (initial_stats ds, 0)))
   \<and> gender_distribution (get_statistics ds)
     = gender_distribution (fst (stats_loop (dict_values (patients ds)) (initial_stats ds, 0)))"
  by (simp add: get_statistics_def split: prod.split)

lemma get_statistics_diagnosis_distribution:
  "diagnosis_distribution (get_statistics ds)
     = fold count_diagnosis (dict_values (patients ds))
         \<lparr>healthy = 0, glaucoma = 0, suspect = 0, mixed = 0\<rparr>"
  by (simp add: get_statistics_fields stats_loop_fold) (simp add: initial_stats_def)

lemma get_statistics_total:
  "total_patients (get_statistics ds) = length (patients ds)"
  by (simp add: get_statistics_fields stats_loop_fold) (simp add: initial_stats_def)

lemma get_statistics_gender:
  "gender_distribution (get_statistics ds)
     = \<lparr>male = length (filter (\<lambda>p. gender p = MALE) (dict_values (patients ds))),
        female = length (filter (\<lambda>p. gender p = FEMALE) (dict_values (patients ds)))\<rparr>"
  by (simp add: get_statistics_fields stats_loop_fold) (simp add: initial_stats_def)

lemma fold_count_diagnosis:
  "healthy (fold count_diagnosis ps dd) = healthy dd + in_bucket HealthyBucket ps
   \<and> glaucoma (fold count_diagnosis ps dd) = glaucoma dd + in_bucket GlaucomaBucket ps
   \<and> suspect (fold count_diagnosis ps dd) = suspect dd + in_bucket SuspectBucket ps
   \<and> mixed (fold count_diagnosis ps dd) = mixed dd + in_bucket MixedBucket ps"
proof (induction ps arbitrary: dd)
  case Nil
  show ?case by (simp add: in_bucket_def)
next
  case (Cons p ps)
  show ?case
  proof (cases "bucket_of p")
    case None
    then show ?thesis
      using Cons.IH [of dd] by (simp add: count_diagnosis_bucket in_bucket_def)
  next
    case (Some b)
    then show ?thesis
      using Cons.IH [of "increment b dd"]
      by (cases b) (simp_all add: count_diagnosis_bucket in_bucket_def increment_def)
  qed
qed

lemma buckets_cover:
  "in_bucket HealthyBucket ps + in_bucket GlaucomaBucket ps + in_bucket SuspectBucket ps
     + in_bucket MixedBucket ps + length (filter no_eyes ps) = length ps"
proof (induction ps)
  case Nil
  show ?case by (simp add: in_bucket_def)
next
  case (Cons p ps)
  have none: "bucket_of p = None \<longleftrightarrow> no_eyes p"
    by (cases "right_eye p"; cases "left_eye p") (simp_all add: bucket_of_def no_eyes_def)
  show ?case
  proof (cases "bucket_of p")
    case None
    with none Cons.IH show ?thesis by (simp add: in_bucket_def)
  next
    case (Some b)
    with none have "\<not> no_eyes p" by simp
    with Some Cons.IH show ?thesis by (cases b) (simp_all add: in_bucket_def)
  qed
qed

lemma genders_cover:
  "length (filter (\<lambda>p. gender p = MALE) ps) + length (filter (\<lambda>p. gender p = FEMALE) ps)
     = length ps"
proof (induction ps)
  case Nil
  show ?case by simp
next
  case (Cons p ps)
  then show ?case by (cases "gender p") simp_all
qed

lemma sample_values:
  "dict_values (patients sample_dataset) =
     [demo_patient,
      Patient_init ''P002'' 40 FEMALE
             (Some (EyeData_init RIGHT HEALTHY None None None None None None None))
             (Some (EyeData_init LEFT HEALTHY None None None None None None None)),
      Patient_init ''P003'' 70 MALE None None]"
  by (simp add: sample_dataset_def demo_dataset_def add_patient_def PapilaDataset_init_def
        dict_values_def demo_patient_def Patient_init_def)

lemma demo_values: "dict_values (patients demo_dataset) = [demo_patient]"
  by (simp add: demo_dataset_def add_patient_def PapilaDataset_init_def dict_values_def)

lemma bucket_of_demo: "bucket_of demo_patient = Some MixedBucket"
  by (simp add: bucket_of_def demo_patient_def Patient_init_def demo_right_eye_def
        demo_left_eye_def EyeData_init_def)

text \<open>
  C3. In \<^verbatim>\<open>get_statistics\<close> a patient adds one to exactly the bucket the specification
  names: healthy, glaucoma or suspect when both eyes are recorded with that same
  diagnosis, mixed when the two sides differ (a patient with one eye recorded
  included), and to no bucket when no eye is recorded. So each count of the
  diagnosis distribution is the number of patients of that bucket.
\<close>

theorem get_statistics_buckets:
  "count_diagnosis p dd = (case bucket_of p of None \<Rightarrow> dd | Some b \<Rightarrow> increment b dd)
   \<and> healthy (diagnosis_distribution (get_statistics ds))
       = in_bucket HealthyBucket (dict_values (patients ds))
   \<and> glaucoma (diagnosis_distribution (get_statistics ds))
       = in_bucket GlaucomaBucket (dict_values (patients ds))
   \<and> suspect (diagnosis_distribution (get_statistics ds))
       = in_bucket SuspectBucket (dict_values (patients ds))
   \<and> mixed (diagnosis_distribution (get_statistics ds))
       = in_bucket MixedBucket (dict_values (patients ds))"
  using fold_count_diagnosis
     [of "dict_values (patients ds)" "\<lparr>healthy = 0, glaucoma = 0, suspect = 0, mixed = 0\<rparr>"]
  by (simp add: count_diagnosis_bucket get_statistics_diagnosis_distribution)

theorem get_statistics_buckets_witness:
  "mixed (diagnosis_distribution (get_statistics demo_dataset)) = 1
   \<and> healthy (diagnosis_distribution (get_statistics demo_dataset)) = 0
   \<and> glaucoma (diagnosis_distribution (get_statistics demo_dataset)) = 0
   \<and> suspect (diagnosis_distribution (get_statistics demo_dataset)) = 0"
  using get_statistics_buckets
     [of demo_patient "\<lparr>healthy = 0, glaucoma = 0, suspect = 0, mixed = 0\<rparr>" demo_dataset]
  by (simp add: demo_values in_bucket_def bucket_of_demo)

text \<open>
  C9. The four counts of the diagnosis distribution and the number of patients with no
  eye recorded add up to \<^verbatim>\<open>total_patients\<close>, and so do the male and female counts.
\<close>

theorem get_statistics_sums:
  "healthy (diagnosis_distribution (get_statistics ds))
     + glaucoma (diagnosis_distribution (get_statistics ds))
     + suspect (diagnosis_distribution (get_statistics ds))
     + mixed (diagnosis_distribution (get_statistics ds))
     + length (filter no_eyes (dict_values (patients ds)))
     = total_patients (get_statistics ds)
   \<and> male (gender_distribution (get_statistics ds))
     + female (gender_distribution (get_statistics ds))
     = total_patients (get_statistics ds)"
proof -
  let ?ps = "dict_values (patients ds)"
  have len: "length ?ps = length (patients ds)" by (simp add: dict_values_def)
  have b: "healthy (diagnosis_distribution (get_statistics ds)) = in_bucket HealthyBucket ?ps"
    "glaucoma (diagnosis_distribution (get_statistics ds)) = in_bucket GlaucomaBucket ?ps"
    "suspect (diagnosis_distribution (get_statistics ds)) = in_bucket SuspectBucket ?ps"
    "mixed (diagnosis_distribution (get_statistics ds)) = in_bucket MixedBucket ?ps"
    using fold_count_diagnosis
      [of ?ps "\<lparr>healthy = 0, glaucoma = 0, suspect = 0, mixed = 0\<rparr>"]
    by (simp_all add: get_statistics_diagnosis_distribution)
  show ?thesis
    unfolding b get_statistics_total get_statistics_gender
    using buckets_cover [of ?ps] genders_cover [of ?ps] len by simp
qed

theorem get_statistics_sums_witness:
  "length (filter no_eyes (dict_values (patients sample_dataset))) = 1
   \<and> total_patients (get_statistics sample_dataset) = 3
   \<and> healthy (diagnosis_distribution (get_statistics sample_dataset))
     + glaucoma (diagnosis_distribution (get_statistics sample_dataset))
     + suspect (diagnosis_distribution (get_statistics sample_dataset))
     + mixed (diagnosis_distribution (get_statistics sample_dataset)) = 2
   \<and> male (gender_distribution (get_statistics sample_dataset))
     + female (gender_distribution (get_statistics sample_dataset)) = 3"
proof -
  have n: "length (filter no_eyes (dict_values (patients sample_dataset))) = 1"
    by (simp add: sample_values no_eyes_def demo_patient_def Patient_init_def)
  have t: "total_patients (get_statistics sample_dataset) = 3"
    using sample_values
    by (simp add: get_statistics_total dict_values_def flip: length_map [of snd])
  show ?thesis
    using get_statistics_sums [of sample_dataset] n t by simp
qed

section \<open>Filtering\<close>

lemma comprehension_total:
  "(\<And>p. p \<in> set ps \<Longrightarrow> cond p = Inr (P p)) \<Longrightarrow> comprehension cond ps = Inr (filter P ps)"
  by (induction ps) simp_all

lemma py_ge_number: "is_number v \<Longrightarrow> py_ge a v = Inr (at_most v a)"
  by (cases v) (simp_all add: is_number_def)

lemma py_le_number: "is_number v \<Longrightarrow> py_le a v = Inr (at_least v a)"
  by (cases v) (simp_all add: is_number_def)

lemma eye_matches_recorded:
  "(eye_matches (right_eye p) v \<or> eye_matches (left_eye p) v)
     = (v \<in> PyDiag ` recorded_diagnoses p)"
  by (cases "right_eye p"; cases "left_eye p")
     (auto simp: eye_matches_def recorded_diagnoses_def)

lemma satisfies_cases:
  "satisfies (''age_min'', v) = (\<lambda>p. at_most v (age p))"
  "satisfies (''age_max'', v) = (\<lambda>p. at_least v (age p))"
  "satisfies (''gender'', v) = (\<lambda>p. v = PyGender (gender p))"
  "satisfies (''diagnosis'', v) = (\<lambda>p. v \<in> PyDiag ` recorded_diagnoses p)"
  by (rule ext, simp add: satisfies_def)+

lemma filter_step:
  assumes "well_typed (k, v)"
  shows "filter_loop ((k, v) # kwargs) fp = filter_loop kwargs (filter (satisfies (k, v)) fp)"
proof -
  have a: "k = ''age_min'' \<Longrightarrow>
      comprehension (\<lambda>p. py_ge (age p) v) fp = Inr (filter (\<lambda>p. at_most v (age p)) fp)"
    using assms by (intro comprehension_total) (simp add: well_typed_def py_ge_number)
  have b: "k = ''age_max'' \<Longrightarrow>
      comprehension (\<lambda>p. py_le (age p) v) fp = Inr (filter (\<lambda>p. at_least v (age p)) fp)"
    using assms by (intro comprehension_total) (simp add: well_typed_def py_le_number)
  have c: "comprehension (\<lambda>p. Inr (PyGender (gender p) = v)) fp
      = Inr (filter (\<lambda>p. v = PyGender (gender p)) fp)"
    by (intro comprehension_total) auto
  have d: "comprehension
      (\<lambda>p. Inr (eye_matches (right_eye p) v \<or> eye_matches (left_eye p) v)) fp
      = Inr (filter (\<lambda>p. v \<in> PyDiag ` recorded_diagnoses p) fp)"
    by (intro comprehension_total) (simp add: eye_matches_recorded)
  have e: "\<not> recognized k \<Longrightarrow> filter (satisfies (k, v)) fp = fp"
    by (simp add: recognized_def satisfies_def)
  show ?thesis
  proof (cases "recognized k")
    case False
    with e show ?thesis by (simp add: recognized_def)
  next
    case True
    then consider "k = ''age_min''" | "k = ''age_max''" | "k = ''gender''" | "k = ''diagnosis''"
      by (auto simp: recognized_def)
    then show ?thesis
    proof cases
      case 1
      with a show ?thesis by (simp add: satisfies_cases)
    next
      case 2
      with b show ?thesis by (simp add: satisfies_cases)
    next
      case 3
      with c show ?thesis by (simp add: satisfies_cases)
    next
      case 4
      with d show ?thesis by (simp add: satisfies_cases)
    qed
  qed
qed

lemma filter_loop_conjunction:
  "\<forall>kv \<in> set kwargs. well_typed kv \<Longrightarrow>
   filter_loop kwargs fp = Inr (filter (\<lambda>p. \<forall>kv \<in> set kwargs. satisfies kv p) fp)"
proof (induction kwargs arbitrary: fp)
  case Nil
  show ?case by simp
next
  case (Cons kv kwargs)
  obtain k v where kv: "kv = (k, v)" by (cases kv)
  from Cons.prems have wt: "well_typed (k, v)" and rest: "\<forall>kv \<in> set kwargs. well_typed kv"
    by (simp_all add: kv)
  have "filter_loop (kv # kwargs) fp = filter_loop kwargs (filter (satisfies (k, v)) fp)"
    unfolding kv by (rule filter_step [OF wt])
  also have "\<dots> = Inr (filter (\<lambda>p. \<forall>kv \<in> set kwargs. satisfies kv p)
                         (filter (satisfies (k, v)) fp))"
    by (rule Cons.IH [OF rest])
  also have "\<dots> = Inr (filter (\<lambda>p. \<forall>kv \<in> set (kv # kwargs). satisfies kv p) fp)"
    by (simp add: kv conj_commute)
  finally show ?case .
qed

lemma filter_loop_unknown:
  "\<not> recognized k \<Longrightarrow>
   filter_loop (kw1 @ (k, v) # kw2) fp = filter_loop (kw1 @ kw2) fp"
proof (induction kw1 arbitrary: fp)
  case Nil
  then show ?case by (simp add: recognized_def)
next
  case (Cons kv kw1)
  obtain k' v' where kv: "kv = (k', v')" by (cases kv)
  from Cons show ?case unfolding kv by (simp split: sum.split)
qed

lemma py_ge_not_number: "\<not> is_number v \<Longrightarrow> py_ge a v = Inl TypeError"
  by (cases v) (simp_all add: is_number_def)

lemma py_le_not_number: "\<not> is_number v \<Longrightarrow> py_le a v = Inl TypeError"
  by (cases v) (simp_all add: is_number_def)

lemma filter_loop_returns:
  "filter_loop kwargs fp = Inl TypeError
   \<or> filter_loop kwargs fp = Inr (filter (\<lambda>p. \<forall>kv \<in> set kwargs. satisfies kv p) fp)"
proof (induction kwargs arbitrary: fp)
  case Nil
  show ?case by simp
next
  case (Cons kv kwargs)
  obtain k v where kv: "kv = (k, v)" by (cases kv)
  show ?case
  proof (cases "well_typed (k, v)")
    case True
    have "filter (\<lambda>p. \<forall>kv \<in> set kwargs. satisfies kv p) (filter (satisfies (k, v)) fp)
        = filter (\<lambda>p. \<forall>kv \<in> set (kv # kwargs). satisfies kv p) fp"
      by (simp add: kv conj_commute)
    with Cons.IH [of "filter (satisfies (k, v)) fp"] filter_step [OF True, of kwargs fp]
    show ?thesis by (auto simp: kv)
  next
    case False
    then have k: "k = ''age_min'' \<or> k = ''age_max''" and v: "\<not> is_number v"
      by (auto simp: well_typed_def)
    show ?thesis
    proof (cases fp)
      case Nil
      with k Cons.IH [of "[]"] show ?thesis by (auto simp: kv)
    next
      case (Cons p ps)
      with k v show ?thesis
        by (auto simp: kv py_ge_not_number py_le_not_number)
    qed
  qed
qed

text \<open>
  C7. Without predicates \<^verbatim>\<open>filter_patients\<close> returns all patients. With predicates whose
  age bounds are numbers it raises nothing and returns, in the order of the dataset,
  exactly the patients that satisfy every predicate: \<^verbatim>\<open>age_min\<close> and \<^verbatim>\<open>age_max\<close> as
  inclusive bounds, \<^verbatim>\<open>gender\<close> as an exact match, \<^verbatim>\<open>diagnosis\<close> when a recorded eye
  carries it. A key that is none of the four is ignored wherever it stands, whatever
  its value. Whatever the values, the only exception is the \<^verbatim>\<open>TypeError\<close> of comparing
  an age with a bound that is not a number, and a call that returns returns exactly
  the patients that satisfy every predicate.
\<close>

theorem filter_patients_conjunction:
  "filter_patients ds [] = Inr (dict_values (patients ds))
   \<and> ((\<forall>kv \<in> set kwargs. well_typed kv) \<longrightarrow>
        filter_patients ds kwargs
          = Inr (filter (\<lambda>p. \<forall>kv \<in> set kwargs. satisfies kv p) (dict_values (patients ds))))
   \<and> (\<not> recognized k \<longrightarrow>
        filter_patients ds (kw1 @ (k, v) # kw2) = filter_patients ds (kw1 @ kw2))
   \<and> (filter_patients ds kwargs = Inl TypeError
        \<or> filter_patients ds kwargs
          = Inr (filter (\<lambda>p. \<forall>kv \<in> set kwargs. satisfies kv p) (dict_values (patients ds))))"
  using filter_loop_returns [of kwargs "dict_values (patients ds)"]
  by (simp add: filter_patients_def filter_loop_conjunction filter_loop_unknown)

theorem filter_patients_conjunction_witness:
  "list_all well_typed
     [(''age_min'', PyInt 60), (''gender'', PyGender MALE), (''colour'', PyStr ''blue'')]
   \<and> filter_patients sample_dataset
       [(''age_min'', PyInt 60), (''gender'', PyGender MALE), (''colour'', PyStr ''blue'')]
     = Inr [demo_patient, Patient_init ''P003'' 70 MALE None None]
   \<and> filter_patients sample_dataset [(''age_min'', PyInt 60), (''diagnosis'', PyDiag SUSPECT)]
     = Inr [demo_patient]"
proof -
  have w1: "\<forall>kv \<in> set [(''age_min'', PyInt 60), (''gender'', PyGender MALE),
      (''colour'', PyStr ''blue'')]. well_typed kv"
    by (simp add: well_typed_def is_number_def)
  have w2: "\<forall>kv \<in> set [(''age_min'', PyInt 60), (''diagnosis'', PyDiag SUSPECT)]. well_typed kv"
    by (simp add: well_typed_def is_number_def)
  have r: "recorded_diagnoses demo_patient = {GLAUCOMA, SUSPECT}"
    "recorded_diagnoses (Patient_init ''P003'' 70 MALE None None) = {}"
    "recorded_diagnoses (Patient_init ''P002'' 40 FEMALE
             (Some (EyeData_init RIGHT HEALTHY None None None None None None None))
             (Some (EyeData_init LEFT HEALTHY None None None None None None None))) = {HEALTHY}"
    by (auto simp: recorded_diagnoses_def demo_patient_def Patient_init_def
          demo_right_eye_def demo_left_eye_def EyeData_init_def)
  have a: "age demo_patient = 65" "gender demo_patient = MALE"
    by (simp_all add: demo_patient_def Patient_init_def)
  define p2 where "p2 = Patient_init ''P002'' 40 FEMALE
             (Some (EyeData_init RIGHT HEALTHY None None None None None None None))
             (Some (EyeData_init LEFT HEALTHY None None None None None None None))"
  define p3 where "p3 = Patient_init ''P003'' 70 MALE None None"
  have r': "recorded_diagnoses p2 = {HEALTHY}" "recorded_diagnoses p3 = {}"
    using r by (simp_all add: p2_def p3_def)
  have b: "age p2 = 40" "gender p2 = FEMALE" "age p3 = 70" "gender p3 = MALE"
    by (simp_all add: p2_def p3_def Patient_init_def)
  have v: "dict_values (patients sample_dataset) = [demo_patient, p2, p3]"
    by (simp add: sample_values p2_def p3_def)
  have f1: "filter (\<lambda>p. \<forall>kv \<in> set [(''age_min'', PyInt 60), (''gender'', PyGender MALE),
            (''colour'', PyStr ''blue'')]. satisfies kv p) [demo_patient, p2, p3]
        = [demo_patient, p3]"
    by (simp add: satisfies_def a b)
  have f2: "filter (\<lambda>p. \<forall>kv \<in> set [(''age_min'', PyInt 60), (''diagnosis'', PyDiag SUSPECT)].
            satisfies kv p) [demo_patient, p2, p3] = [demo_patient]"
    by (simp add: satisfies_def a b r r')
  have g1: "filter_patients sample_dataset
       [(''age_min'', PyInt 60), (''gender'', PyGender MALE), (''colour'', PyStr ''blue'')]
     = Inr [demo_patient, p3]"
    using filter_patients_conjunction
        [of sample_dataset "[(''age_min'', PyInt 60), (''gender'', PyGender MALE),
            (''colour'', PyStr ''blue'')]" "''colour''" "[]" "PyStr ''blue''" "[]"] w1
    unfolding v f1 by blast
  have g2: "filter_patients sample_dataset
       [(''age_min'', PyInt 60), (''diagnosis'', PyDiag SUSPECT)] = Inr [demo_patient]"
    using filter_patients_conjunction
        [of sample_dataset "[(''age_min'', PyInt 60), (''diagnosis'', PyDiag SUSPECT)]"
            "''colour''" "[]" "PyStr ''blue''" "[]"] w2
    unfolding v f2 by blast
  show ?thesis
    using w1 g1 g2 unfolding p3_def list_all_iff by blast
qed

section \<open>Reading on the store\<close>

subsection \<open>What the calls leave unchanged\<close>

lemma next_list_extends:
  "next_list h l cond = (h', r) \<Longrightarrow>
   (\<exists>new. h' = h @ new) \<and> (\<forall>l'. r = Inr l' \<longrightarrow> fresh_list h h' l')"
  by (auto simp: next_list_def alloc_def fresh_list_def
        split: option.splits cell.splits sum.splits)

lemma fresh_list_mono:
  "fresh_list h1 h' l \<Longrightarrow> length h \<le> length h1 \<Longrightarrow> fresh_list h h' l"
  by (simp add: fresh_list_def)

lemma fresh_list_append:
  "fresh_list h h1 l \<Longrightarrow> fresh_list h (h1 @ new) l"
  by (auto simp: fresh_list_def nth_append)

lemma filter_loop_h_extends:
  "filter_loop_h kwargs h l = (h', r) \<Longrightarrow>
   (\<exists>new. h' = h @ new) \<and>
   (\<forall>l'. r = Inr l' \<longrightarrow> (l' = l \<or> fresh_list h h' l'))"
proof (induction kwargs arbitrary: h l)
  case Nil
  then show ?case by auto
next
  case (Cons kv kwargs)
  obtain k v where kv: "kv = (k, v)" by (cases kv)
  have step: "\<And>cond.
      (case next_list h l cond of
           (h1, Inl e) \<Rightarrow> (h1, Inl e) | (h1, Inr l1) \<Rightarrow> filter_loop_h kwargs h1 l1) = (h', r)
      \<Longrightarrow> (\<exists>new. h' = h @ new) \<and> (\<forall>l'. r = Inr l' \<longrightarrow> (l' = l \<or> fresh_list h h' l'))"
  proof -
    fix cond
    assume a: "(case next_list h l cond of
           (h1, Inl e) \<Rightarrow> (h1, Inl e) | (h1, Inr l1) \<Rightarrow> filter_loop_h kwargs h1 l1) = (h', r)"
    obtain h1 r1 where n: "next_list h l cond = (h1, r1)" by (cases "next_list h l cond")
    from next_list_extends [OF n] obtain new1 where
      h1: "h1 = h @ new1" and f1: "\<forall>l'. r1 = Inr l' \<longrightarrow> fresh_list h h1 l'" by blast
    show "(\<exists>new. h' = h @ new) \<and> (\<forall>l'. r = Inr l' \<longrightarrow> (l' = l \<or> fresh_list h h' l'))"
    proof (cases r1)
      case (Inl e)
      with a n h1 show ?thesis by auto
    next
      case (Inr l1)
      with a n have loop: "filter_loop_h kwargs h1 l1 = (h', r)" by simp
      from Cons.IH [OF loop] obtain new2 where
        h': "h' = h1 @ new2" and f2: "\<forall>l'. r = Inr l' \<longrightarrow> (l' = l1 \<or> fresh_list h1 h' l')"
        by blast
      have "fresh_list h h' l'" if "r = Inr l'" for l'
      proof -
        from f2 that consider "l' = l1" | "fresh_list h1 h' l'" by blast
        then show ?thesis
        proof cases
          case 1
          with f1 Inr have "fresh_list h h1 l'" by simp
          then show ?thesis unfolding h' by (rule fresh_list_append)
        next
          case 2
          then show ?thesis by (rule fresh_list_mono) (simp add: h1)
        qed
      qed
      with h1 h' show ?thesis by auto
    qed
  qed
  from Cons.prems show ?case
    unfolding kv
    by (auto simp del: split_paired_All split_paired_Ex split: if_splits
          dest!: step Cons.IH)
qed

lemma filter_patients_h_extends:
  assumes "filter_patients_h h self kwargs = (h', r)"
  shows "(\<exists>new. h' = h @ new) \<and> (\<forall>l. r = Inr l \<longrightarrow> fresh_list h h' l)"
proof (cases "\<exists>d b items. lookup h self = Some (DatasetCell d b) \<and> lookup h d = Some (DictCell items)")
  case False
  with assms have "h' = h \<and> r = Inl AttributeError"
    by (auto simp: filter_patients_h_def split: option.splits cell.splits)
  then show ?thesis by simp
next
  case True
  then obtain d b items where
    "lookup h self = Some (DatasetCell d b)" "lookup h d = Some (DictCell items)" by blast
  with assms have loop:
    "filter_loop_h kwargs (h @ [ListCell (dict_values items)]) (length h) = (h', r)"
    by (simp add: filter_patients_h_def alloc_def)
  from filter_loop_h_extends [OF loop] obtain new where
    h': "h' = (h @ [ListCell (dict_values items)]) @ new"
    and f: "\<forall>l'. r = Inr l' \<longrightarrow>
        (l' = length h \<or> fresh_list (h @ [ListCell (dict_values items)]) h' l')"
    by blast
  have "fresh_list h h' l" if "r = Inr l" for l
  proof -
    from f that consider "l = length h"
      | "fresh_list (h @ [ListCell (dict_values items)]) h' l" by blast
    then show ?thesis
    proof cases
      case 1
      then show ?thesis by (simp add: fresh_list_def h' nth_append)
    next
      case 2
      then show ?thesis by (rule fresh_list_mono) simp
    qed
  qed
  with h' show ?thesis by auto
qed

lemma fresh_list_update:
  "h' = h @ new \<Longrightarrow> fresh_list h h' l \<Longrightarrow> \<exists>new'. h'[l := c] = h @ new'"
  by (auto simp: fresh_list_def list_update_append)

lemma lookup_append: "lookup h a = Some c \<Longrightarrow> lookup (h @ new) a = Some c"
  by (auto simp: lookup_def nth_append split: if_splits)

lemma load_eye_append: "load_eye h x = Some e \<Longrightarrow> load_eye (h @ new) x = Some e"
proof (cases x)
  case None
  then show "load_eye h x = Some e \<Longrightarrow> load_eye (h @ new) x = Some e"
    by (simp add: load_eye_def)
next
  case (Some a)
  assume le: "load_eye h x = Some e"
  with Some obtain c where c: "lookup h a = Some c"
    by (cases "lookup h a") (simp_all add: load_eye_def)
  from lookup_append [OF c] have "lookup (h @ new) a = lookup h a" by (simp add: c)
  with le Some show "load_eye (h @ new) x = Some e" by (simp add: load_eye_def)
qed

lemma load_patient_append:
  assumes "load_patient h a = Some p"
  shows "load_patient (h @ new) a = Some p"
proof -
  from assms obtain c where c: "lookup h a = Some c"
    by (cases "lookup h a") (simp_all add: load_patient_def)
  from assms c obtain po where po: "c = PatientCell po"
    by (cases c) (simp_all add: load_patient_def)
  from assms c po obtain r where r: "load_eye h (obj_right_eye po) = Some r"
    by (cases "load_eye h (obj_right_eye po)") (simp_all add: load_patient_def)
  from assms c po r obtain l where l: "load_eye h (obj_left_eye po) = Some l"
    by (cases "load_eye h (obj_left_eye po)") (simp_all add: load_patient_def)
  have "lookup (h @ new) a = Some (PatientCell po)"
    using lookup_append [OF c] po by simp
  moreover have "load_eye (h @ new) (obj_right_eye po) = Some r"
    by (rule load_eye_append [OF r])
  moreover have "load_eye (h @ new) (obj_left_eye po) = Some l"
    by (rule load_eye_append [OF l])
  ultimately have "load_patient (h @ new) a = load_patient h a"
    using c po r l by (simp add: load_patient_def)
  with assms show ?thesis by simp
qed

lemma load_items_append:
  "load_items h items = Some ps \<Longrightarrow> load_items (h @ new) items = Some ps"
proof (induction items arbitrary: ps)
  case Nil
  then show ?case by simp
next
  case (Cons ka items)
  obtain k a where ka: "ka = (k, a)" by (cases ka)
  from Cons.prems obtain p where p: "load_patient h a = Some p"
    by (cases "load_patient h a") (simp_all add: ka)
  from Cons.prems p obtain ps' where ps': "load_items h items = Some ps'"
    by (cases "load_items h items") (simp_all add: ka)
  from Cons.prems p ps' have ps: "ps = (k, p) # ps'" by (simp add: ka)
  from load_patient_append [OF p] Cons.IH [OF ps'] ps show ?case
    by (simp add: ka)
qed

lemma load_dataset_append:
  assumes "load_dataset h self = Some ds"
  shows "load_dataset (h @ new) self = Some ds"
proof -
  from assms obtain c where c: "lookup h self = Some c"
    by (cases "lookup h self") (simp_all add: load_dataset_def)
  from assms c obtain d b where cd: "c = DatasetCell d b"
    by (cases c) (simp_all add: load_dataset_def)
  from assms c cd obtain c' where c': "lookup h d = Some c'"
    by (cases "lookup h d") (simp_all add: load_dataset_def)
  from assms c cd c' obtain items where it: "c' = DictCell items"
    by (cases c') (simp_all add: load_dataset_def)
  from assms c cd c' it obtain ps where ps: "load_items h items = Some ps"
    by (cases "load_items h items") (simp_all add: load_dataset_def)
  have "lookup (h @ new) self = Some (DatasetCell d b)"
    using lookup_append [OF c] cd by simp
  moreover have "lookup (h @ new) d = Some (DictCell items)"
    using lookup_append [OF c'] it by simp
  moreover have "load_items (h @ new) items = Some ps"
    by (rule load_items_append [OF ps])
  ultimately have "load_dataset (h @ new) self = load_dataset h self"
    using c cd c' it ps by (simp add: load_dataset_def)
  with assms show ?thesis by simp
qed

subsection \<open>The store agrees with the values\<close>

lemma loads_append: "loads h as ps \<Longrightarrow> loads (h @ new) as ps"
  unfolding loads_def
  by (erule list_all2_mono) (rule load_patient_append)

lemma comprehension_h_refines:
  "loads h as ps \<Longrightarrow>
   (case comprehension cond ps of
      Inl e \<Rightarrow> comprehension_h h cond as = Inl e
    | Inr ps' \<Rightarrow> (\<exists>as'. comprehension_h h cond as = Inr as' \<and> loads h as' ps'))"
  unfolding loads_def
proof (induction as ps rule: list_all2_induct)
  case Nil
  show ?case by simp
next
  case (Cons a as p ps)
  show ?case
  proof (cases "cond p")
    case (Inl e)
    with Cons show ?thesis by simp
  next
    case (Inr b)
    show ?thesis
    proof (cases "comprehension cond ps")
      case (Inl e)
      with Cons Inr show ?thesis by simp
    next
      case inr: (Inr ps')
      with Cons.IH obtain as' where
        "comprehension_h h cond as = Inr as'"
        "list_all2 (\<lambda>a p. load_patient h a = Some p) as' ps'" by auto
      with Cons.hyps Inr inr show ?thesis by simp
    qed
  qed
qed

lemma next_list_refines:
  assumes "lookup h l = Some (ListCell as)" and "loads h as ps"
    and "next_list h l cond = (h', r)"
  shows "(\<exists>new. h' = h @ new) \<and>
    (case comprehension cond ps of
       Inl e \<Rightarrow> r = Inl e
     | Inr ps' \<Rightarrow> (\<exists>l' as'. r = Inr l' \<and> lookup h' l' = Some (ListCell as') \<and> loads h' as' ps'))"
proof (cases "comprehension cond ps")
  case (Inl e)
  with comprehension_h_refines [OF assms(2), of cond]
  have "comprehension_h h cond as = Inl e" by simp
  with assms(1,3) Inl show ?thesis by (simp add: next_list_def)
next
  case (Inr ps')
  with comprehension_h_refines [OF assms(2), of cond] obtain as' where
    c: "comprehension_h h cond as = Inr as'" and l: "loads h as' ps'" by auto
  from assms(1,3) c have r: "h' = h @ [ListCell as']" "r = Inr (length h)"
    by (simp_all add: next_list_def alloc_def)
  have "lookup h' (length h) = Some (ListCell as')"
    by (simp add: r lookup_def)
  moreover have "loads h' as' ps'"
    unfolding r by (rule loads_append [OF l])
  ultimately show ?thesis using Inr r by simp
qed

lemma filter_loop_h_refines:
  "lookup h l = Some (ListCell as) \<Longrightarrow> loads h as ps \<Longrightarrow>
   filter_loop_h kwargs h l = (h', r) \<Longrightarrow> agrees h' r (filter_loop kwargs ps)"
proof (induction kwargs arbitrary: h l as ps)
  case Nil
  then show ?case by (auto simp: agrees_def)
next
  case (Cons kv kwargs)
  obtain k v where kv: "kv = (k, v)" by (cases kv)
  have step: "agrees h' r
      (case comprehension cond ps of Inl e \<Rightarrow> Inl e | Inr fp \<Rightarrow> filter_loop kwargs fp)"
    if a: "(case next_list h l cond of
           (h1, Inl e) \<Rightarrow> (h1, Inl e) | (h1, Inr l1) \<Rightarrow> filter_loop_h kwargs h1 l1) = (h', r)"
    for cond
  proof -
    obtain h1 r1 where n: "next_list h l cond = (h1, r1)" by (cases "next_list h l cond")
    note ref = next_list_refines [OF Cons.prems(1,2) n]
    show ?thesis
    proof (cases "comprehension cond ps")
      case (Inl e)
      with ref have "r1 = Inl e" by simp
      with a n Inl show ?thesis by (simp add: agrees_def)
    next
      case (Inr ps')
      with ref obtain l1 as1 where
        r1: "r1 = Inr l1" and lk: "lookup h1 l1 = Some (ListCell as1)"
        and ld: "loads h1 as1 ps'" by auto
      from a n r1 have "filter_loop_h kwargs h1 l1 = (h', r)" by simp
      from Cons.IH [OF lk ld this] Inr show ?thesis by simp
    qed
  qed
  show ?case
  proof (cases "recognized k")
    case False
    with Cons.prems(3) have "filter_loop_h kwargs h l = (h', r)"
      by (simp add: kv recognized_def)
    from Cons.IH [OF Cons.prems(1,2) this] False show ?thesis
      by (simp add: kv recognized_def)
  next
    case True
    then consider "k = ''age_min''" | "k = ''age_max''" | "k = ''gender''" | "k = ''diagnosis''"
      by (auto simp: recognized_def)
    then show ?thesis
    proof cases
      case 1
      with Cons.prems(3) step [of "\<lambda>p. py_ge (age p) v"] show ?thesis by (simp add: kv)
    next
      case 2
      with Cons.prems(3) step [of "\<lambda>p. py_le (age p) v"] show ?thesis by (simp add: kv)
    next
      case 3
      with Cons.prems(3) step [of "\<lambda>p. Inr (PyGender (gender p) = v)"] show ?thesis
        by (simp add: kv)
    next
      case 4
      with Cons.prems(3)
        step [of "\<lambda>p. Inr (eye_matches (right_eye p) v \<or> eye_matches (left_eye p) v)"]
      show ?thesis by (simp add: kv)
    qed
  qed
qed

lemma load_items_loads:
  "load_items h items = Some ps \<Longrightarrow> loads h (dict_values items) (dict_values ps)"
proof (induction items arbitrary: ps)
  case Nil
  then show ?case by (simp add: loads_def dict_values_def)
next
  case (Cons ka items)
  obtain k a where ka: "ka = (k, a)" by (cases ka)
  from Cons.prems obtain p where p: "load_patient h a = Some p"
    by (cases "load_patient h a") (simp_all add: ka)
  from Cons.prems p obtain ps' where ps': "load_items h items = Some ps'"
    by (cases "load_items h items") (simp_all add: ka)
  from Cons.prems p ps' have ps: "ps = (k, p) # ps'" by (simp add: ka)
  from Cons.IH [OF ps'] p ps show ?case
    by (simp add: ka loads_def dict_values_def)
qed

lemma filter_patients_h_refines:
  assumes "load_dataset h self = Some ds"
  shows "agrees (fst (filter_patients_h h self kwargs)) (snd (filter_patients_h h self kwargs))
           (filter_patients ds kwargs)"
proof -
  from assms obtain c where c: "lookup h self = Some c"
    by (cases "lookup h self") (simp_all add: load_dataset_def)
  from assms c obtain d b where cd: "c = DatasetCell d b"
    by (cases c) (simp_all add: load_dataset_def)
  from assms c cd obtain c' where c': "lookup h d = Some c'"
    by (cases "lookup h d") (simp_all add: load_dataset_def)
  from assms c cd c' obtain items where it: "c' = DictCell items"
    by (cases c') (simp_all add: load_dataset_def)
  from assms c cd c' it obtain ps where ps: "load_items h items = Some ps"
    by (cases "load_items h items") (simp_all add: load_dataset_def)
  from assms c cd c' it ps have ds: "patients ds = ps"
    by (auto simp: load_dataset_def)
  let ?h0 = "h @ [ListCell (dict_values items)]"
  obtain h' r where loop: "filter_loop_h kwargs ?h0 (length h) = (h', r)"
    by (cases "filter_loop_h kwargs ?h0 (length h)")
  have fp: "filter_patients_h h self kwargs = (h', r)"
    using c cd c' it loop by (simp add: filter_patients_h_def alloc_def)
  have lk: "lookup ?h0 (length h) = Some (ListCell (dict_values items))"
    by (simp add: lookup_def)
  have ld: "loads ?h0 (dict_values items) (dict_values ps)"
    by (rule loads_append [OF load_items_loads [OF ps]])
  from filter_loop_h_refines [OF lk ld loop] show ?thesis
    by (simp add: fp filter_patients_def ds)
qed

lemma demo_heap_patient:
  "load_patient (demo_heap @ new) 2 = Some demo_patient"
  by (simp add: load_patient_def load_eye_def lookup_def demo_heap_def demo_patient_def
        Patient_init_def)

lemma demo_heap_dataset: "load_dataset demo_heap 4 = Some demo_dataset"
proof -
  have a: "lookup demo_heap 4 = Some (DatasetCell 3 None)"
    "lookup demo_heap 3 = Some (DictCell [(''P001'', 2)])"
    by (simp_all add: lookup_def demo_heap_def)
  have p: "load_patient demo_heap 2 = Some demo_patient"
    using demo_heap_patient [of "[]"] by simp
  have items: "load_items demo_heap [(''P001'', 2)] = Some [(''P001'', demo_patient)]"
    by (simp add: p)
  have ds: "demo_dataset = \<lparr>patients = [(''P001'', demo_patient)], base_dir = None\<rparr>"
    by (simp add: demo_dataset_def add_patient_def PapilaDataset_init_def)
       (simp add: demo_patient_def Patient_init_def)
  show ?thesis
    by (simp add: load_dataset_def a p ds)
qed

lemma demo_heap_filter:
  "filter_patients_h demo_heap 4 [(''age_min'', PyInt 60)]
     = (demo_heap @ [ListCell [2], ListCell [2]], Inr 6)"
proof -
  have l: "length demo_heap = 5" by (simp add: demo_heap_def)
  have a: "lookup demo_heap 4 = Some (DatasetCell 3 None)"
    "lookup demo_heap 3 = Some (DictCell [(''P001'', 2)])"
    by (simp_all add: lookup_def demo_heap_def)
  have b: "lookup (demo_heap @ [ListCell [2]]) 5 = Some (ListCell [2])"
    by (simp add: lookup_def l nth_append)
  have c: "age demo_patient = 65"
    by (simp add: demo_patient_def Patient_init_def)
  have n: "next_list (demo_heap @ [ListCell [2]]) 5 (\<lambda>p. Inr (60 \<le> age p))
      = (demo_heap @ [ListCell [2], ListCell [2]], Inr 6)"
    by (simp add: next_list_def b alloc_def l demo_heap_patient c)
  have v: "dict_values [(''P001'', 2::nat)] = [2]" by (simp add: dict_values_def)
  show ?thesis
    by (simp add: filter_patients_h_def a alloc_def v l n)
qed


subsection \<open>The statistics on the store\<close>

lemma lookup_update:
  "lookup (h[s := c]) a = (if a = s \<and> s < length h then Some c else lookup h a)"
  by (auto simp: lookup_def)

lemma load_eye_update_stats:
  assumes "lookup h s = Some (StatsCell y)"
  shows "load_eye (h[s := StatsCell x]) e = load_eye h e"
proof (cases e)
  case None
  then show ?thesis by (simp add: load_eye_def)
next
  case (Some a)
  show ?thesis
  proof (cases "a = s")
    case True
    with assms Some show ?thesis
      by (simp add: load_eye_def lookup_update)
  next
    case False
    with Some show ?thesis by (simp add: load_eye_def lookup_update)
  qed
qed

lemma load_patient_update_stats:
  assumes "lookup h s = Some (StatsCell y)"
  shows "load_patient (h[s := StatsCell x]) a = load_patient h a"
proof (cases "a = s")
  case True
  with assms show ?thesis
    by (simp add: load_patient_def lookup_update)
next
  case False
  then show ?thesis
    by (simp add: load_patient_def lookup_update load_eye_update_stats [OF assms]
          cong: option.case_cong cell.case_cong)
qed

lemma loads_update_stats:
  "lookup h s = Some (StatsCell y) \<Longrightarrow> loads h as ps \<Longrightarrow> loads (h[s := StatsCell x]) as ps"
  by (simp add: loads_def load_patient_update_stats)

lemma stats_loop_h_extends:
  "length h0 \<le> s \<Longrightarrow> stats_loop_h as (h0 @ new) s t = (h', r) \<Longrightarrow> \<exists>new'. h' = h0 @ new'"
proof (induction as arbitrary: new t)
  case Nil
  then show ?case by auto
next
  case (Cons a as)
  show ?case
  proof (cases "load_patient (h0 @ new) a")
    case None
    with Cons.prems show ?thesis by auto
  next
    case (Some patient)
    show ?thesis
    proof (cases "\<exists>stats. lookup (h0 @ new) s = Some (StatsCell stats)")
      case False
      with Cons.prems Some show ?thesis
        by (auto split: option.splits cell.splits)
    next
      case True
      then obtain stats where st: "lookup (h0 @ new) s = Some (StatsCell stats)" by blast
      have u: "(h0 @ new)[s := StatsCell (update_stats patient stats)]
          = h0 @ new[s - length h0 := StatsCell (update_stats patient stats)]"
        using Cons.prems(1) by (simp add: list_update_append)
      from Cons.prems(2) Some st have
        "stats_loop_h as (h0 @ new[s - length h0 := StatsCell (update_stats patient stats)]) s
           (t + age patient) = (h', r)"
        by (simp add: u)
      from Cons.IH [OF Cons.prems(1) this] show ?thesis .
    qed
  qed
qed

lemma get_statistics_h_extends:
  "\<exists>new. fst (get_statistics_h h self) = h @ new"
proof (cases "\<exists>d b items ps. lookup h self = Some (DatasetCell d b)
    \<and> lookup h d = Some (DictCell items) \<and> load_items h items = Some ps")
  case False
  then have "fst (get_statistics_h h self) = h"
    by (auto simp: get_statistics_h_def split: option.splits cell.splits)
  then show ?thesis by simp
next
  case True
  then obtain d b items ps where w: "lookup h self = Some (DatasetCell d b)"
    "lookup h d = Some (DictCell items)" "load_items h items = Some ps" by blast
  let ?init = "StatsCell (initial_stats \<lparr>patients = ps, base_dir = b\<rparr>)"
  obtain h2 r where loop: "stats_loop_h (dict_values items) (h @ [?init]) (length h) 0 = (h2, r)"
    by (cases "stats_loop_h (dict_values items) (h @ [?init]) (length h) 0")
  from stats_loop_h_extends [OF _ loop] obtain new2 where h2: "h2 = h @ new2" by auto
  have "fst (get_statistics_h h self) = h2 \<or> (\<exists>c. fst (get_statistics_h h self) = h2[length h := c])"
    using w loop
    by (auto simp: get_statistics_h_def alloc_def split: sum.splits option.splits cell.splits)
  then show ?thesis
  proof
    assume "fst (get_statistics_h h self) = h2"
    with h2 show ?thesis by simp
  next
    assume "\<exists>c. fst (get_statistics_h h self) = h2[length h := c]"
    then obtain c where "fst (get_statistics_h h self) = h2[length h := c]" by blast
    with h2 show ?thesis by (simp add: list_update_append)
  qed
qed

lemma stats_loop_h_refines:
  "loads h as ps \<Longrightarrow> lookup h s = Some (StatsCell st) \<Longrightarrow>
   stats_loop_h as h s t
     = (h[s := StatsCell (fst (stats_loop ps (st, t)))], Inr (snd (stats_loop ps (st, t))))"
proof (induction as arbitrary: ps h st t)
  case Nil
  then have "ps = []" by (simp add: loads_def)
  moreover from Nil have "h ! s = StatsCell st" by (simp add: lookup_def split: if_splits)
  then have "h[s := StatsCell st] = h" by (metis list_update_id)
  ultimately show ?case by simp
next
  case (Cons a as)
  from Cons.prems(1) obtain p ps' where ps: "ps = p # ps'"
    and p: "load_patient h a = Some p" and rest: "loads h as ps'"
    by (auto simp: loads_def list_all2_Cons1)
  let ?h = "h[s := StatsCell (update_stats p st)]"
  from Cons.prems(2) have s: "s < length h" by (simp add: lookup_def split: if_splits)
  have lk: "lookup ?h s = Some (StatsCell (update_stats p st))"
    using s by (simp add: lookup_update)
  have ld: "loads ?h as ps'"
    by (rule loads_update_stats [OF Cons.prems(2) rest])
  have "stats_loop_h (a # as) h s t = stats_loop_h as ?h s (t + age p)"
    using p Cons.prems(2) by simp
  also have "\<dots> = (?h[s := StatsCell (fst (stats_loop ps' (update_stats p st, t + age p)))],
      Inr (snd (stats_loop ps' (update_stats p st, t + age p))))"
    using ld lk by (rule Cons.IH)
  finally show ?case by (simp add: ps)
qed

lemma load_items_length: "load_items h items = Some ps \<Longrightarrow> length ps = length items"
proof (induction items arbitrary: ps)
  case Nil
  then show ?case by simp
next
  case (Cons ka items)
  obtain k a where ka: "ka = (k, a)" by (cases ka)
  from Cons.prems obtain p where p: "load_patient h a = Some p"
    by (cases "load_patient h a") (simp_all add: ka)
  from Cons.prems p obtain ps' where ps': "load_items h items = Some ps'"
    by (cases "load_items h items") (simp_all add: ka)
  from Cons.prems p ps' have "ps = (k, p) # ps'" by (simp add: ka)
  with Cons.IH [OF ps'] show ?case by simp
qed

lemma get_statistics_h_refines:
  assumes "load_dataset h self = Some ds"
  shows "get_statistics_h h self = (h @ [StatsCell (get_statistics ds)], Inr (length h))"
proof -
  from assms obtain c where c: "lookup h self = Some c"
    by (cases "lookup h self") (simp_all add: load_dataset_def)
  from assms c obtain d b where cd: "c = DatasetCell d b"
    by (cases c) (simp_all add: load_dataset_def)
  from assms c cd obtain c' where c': "lookup h d = Some c'"
    by (cases "lookup h d") (simp_all add: load_dataset_def)
  from assms c cd c' obtain items where it: "c' = DictCell items"
    by (cases c') (simp_all add: load_dataset_def)
  from assms c cd c' it obtain ps where ps: "load_items h items = Some ps"
    by (cases "load_items h items") (simp_all add: load_dataset_def)
  from assms c cd c' it ps have ds: "ds = \<lparr>patients = ps, base_dir = b\<rparr>"
    by (simp add: load_dataset_def)
  have len: "length ps = length items" by (rule load_items_length [OF ps])
  obtain st total_age where
    sl: "stats_loop (dict_values ps) (initial_stats ds, 0) = (st, total_age)"
    by (cases "stats_loop (dict_values ps) (initial_stats ds, 0)")
  let ?h1 = "h @ [StatsCell (initial_stats ds)]"
  have lk: "lookup ?h1 (length h) = Some (StatsCell (initial_stats ds))"
    by (simp add: lookup_def)
  have ld: "loads ?h1 (dict_values items) (dict_values ps)"
    by (rule loads_append [OF load_items_loads [OF ps]])
  have loop: "stats_loop_h (dict_values items) ?h1 (length h) 0
      = (h @ [StatsCell st], Inr total_age)"
    using stats_loop_h_refines [OF ld lk, of 0] by (simp add: sl)
  have lk2: "lookup (h @ [StatsCell st]) (length h) = Some (StatsCell st)"
    by (simp add: lookup_def)
  have g: "get_statistics ds =
      (if ps \<noteq> [] then st\<lparr>age_stats := (age_stats st)
                 \<lparr>avg := real_of_int total_age / real (length ps)\<rparr>\<rparr> else st)"
    using sl by (simp add: get_statistics_def ds)
  have ne: "(items \<noteq> []) = (ps \<noteq> [])" using len by auto
  show ?thesis
    by (simp add: get_statistics_h_def c cd c' it ps alloc_def ds [symmetric] loop lk2 g ne len)
qed

lemma demo_heap_statistics:
  "get_statistics_h demo_heap 4
     = (demo_heap @ [StatsCell (get_statistics demo_dataset)], Inr 5)"
  using get_statistics_h_refines [OF demo_heap_dataset] by (simp add: demo_heap_def)

text \<open>
  C10. \<^verbatim>\<open>filter_patients\<close> and \<^verbatim>\<open>get_statistics\<close> are read-only. The heap after either
  call is the heap before it followed by new objects, so the dataset, its dictionary,
  every patient and every eye data are unchanged at their addresses. The list
  \<^verbatim>\<open>filter_patients\<close> returns is one of the new objects, and assigning any content to
  that list still leaves the old heap as it was. In particular a dataset read from the
  heap before a call is read from it unchanged after the call, also after the returned
  list has been overwritten.
\<close>

theorem filter_and_statistics_read_only:
  "(\<exists>new. fst (filter_patients_h h self kwargs) = h @ new)
   \<and> (\<forall>l. snd (filter_patients_h h self kwargs) = Inr l \<longrightarrow>
         fresh_list h (fst (filter_patients_h h self kwargs)) l
         \<and> (\<forall>xs. \<exists>new. (fst (filter_patients_h h self kwargs))[l := ListCell xs] = h @ new))
   \<and> (\<exists>new. fst (get_statistics_h h self) = h @ new)
   \<and> (\<forall>ds. load_dataset h self = Some ds \<longrightarrow>
         load_dataset (fst (filter_patients_h h self kwargs)) self = Some ds
         \<and> (\<forall>l xs. snd (filter_patients_h h self kwargs) = Inr l \<longrightarrow>
               load_dataset ((fst (filter_patients_h h self kwargs))[l := ListCell xs]) self
                 = Some ds)
         \<and> load_dataset (fst (get_statistics_h h self)) self = Some ds)"
proof -
  obtain h' r where fp: "filter_patients_h h self kwargs = (h', r)"
    by (cases "filter_patients_h h self kwargs")
  from filter_patients_h_extends [OF fp] obtain new where
    h': "h' = h @ new" and f: "\<forall>l. r = Inr l \<longrightarrow> fresh_list h h' l" by blast
  have u: "\<exists>new'. h'[l := ListCell xs] = h @ new'" if "r = Inr l" for l xs
    using fresh_list_update [OF h'] f that by blast
  from get_statistics_h_extends [of h self] obtain new3 where
    s: "fst (get_statistics_h h self) = h @ new3" by blast
  have d1: "load_dataset h' self = Some ds" if "load_dataset h self = Some ds" for ds
    unfolding h' using that by (rule load_dataset_append)
  have d2: "load_dataset (h'[l := ListCell xs]) self = Some ds"
    if "load_dataset h self = Some ds" "r = Inr l" for ds l xs
  proof -
    from u [OF that(2)] obtain new' where "h'[l := ListCell xs] = h @ new'" by blast
    with load_dataset_append [OF that(1)] show ?thesis by simp
  qed
  have d3: "load_dataset (fst (get_statistics_h h self)) self = Some ds"
    if "load_dataset h self = Some ds" for ds
    unfolding s using that by (rule load_dataset_append)
  show ?thesis
    unfolding fp fst_conv snd_conv using h' f u s d1 d2 d3 by blast
qed

theorem filter_and_statistics_read_only_witness:
  "load_dataset demo_heap 4 = Some demo_dataset
   \<and> filter_patients_h demo_heap 4 [(''age_min'', PyInt 60)]
       = (demo_heap @ [ListCell [2], ListCell [2]], Inr 6)
   \<and> fresh_list demo_heap (demo_heap @ [ListCell [2], ListCell [2]]) 6
   \<and> load_dataset ((demo_heap @ [ListCell [2], ListCell [2]])[6 := ListCell []]) 4
       = Some demo_dataset
   \<and> get_statistics_h demo_heap 4
       = (demo_heap @ [StatsCell (get_statistics demo_dataset)], Inr 5)
   \<and> load_dataset (demo_heap @ [StatsCell (get_statistics demo_dataset)]) 4
       = Some demo_dataset"
  using filter_and_statistics_read_only [of demo_heap 4 "[(''age_min'', PyInt 60)]"]
    demo_heap_dataset
  by (simp add: demo_heap_filter demo_heap_statistics)

end
